theory Spec2Isabelle
  imports Complex_Main
begin

section \<open>Separable convolution (src/linear/convolution.cpp)\<close>

text \<open>
  Sample values. The C++ code is instantiated for \<^verbatim>\<open>sfloat\<close>, \<^verbatim>\<open>dfloat\<close>,
  \<^verbatim>\<open>scomplex\<close> and \<^verbatim>\<open>dcomplex\<close>; the filter storage is a raw byte vector that
  is cast according to the flags \<^verbatim>\<open>isDouble\<close> and \<^verbatim>\<open>isComplex\<close>. Here every sample
  and every tap is an exact complex number; the real types are the values with zero
  imaginary part. Rounding is not modelled.
\<close>

datatype FilterSymmetry = GENERAL | EVEN | ODD | CONJ | D_EVEN | D_ODD | D_CONJ

datatype error =
    IMAGE_NOT_FORGED
  | DIMENSIONALITY_NOT_SUPPORTED
  | DIMENSIONALITIES_DONT_MATCH
  | ARRAY_PARAMETER_WRONG_LENGTH
  | SIZES_DONT_MATCH
  | INVALID_FLAG
  | COMPLEX_FILTER_ODD_LENGTH
  | COMPLEX_FILTER_NOT_EXPECTED
  | SYMMETRY_NOT_RECOGNIZED
  | ORIGIN_OUTSIDE_OF_FILTER
  | FILTER_NOT_SEPARABLE

text \<open>
  \<^verbatim>\<open>dip::OneDimensionalFilter\<close> as the constructor of \<^verbatim>\<open>InternOneDimensionalFilter\<close>
  reads it: the tap values (a vector of \<^verbatim>\<open>dfloat\<close>; pairs of real and imaginary
  parts when \<^verbatim>\<open>isComplex\<close>), the signed origin, the symmetry string.
\<close>

record OneDimensionalFilter =
  f_filter :: "real list"
  f_origin :: int
  f_symmetry :: string
  f_isComplex :: bool

text \<open>\<^verbatim>\<open>struct InternOneDimensionalFilter\<close>, lines 58-66.\<close>

record InternOneDimensionalFilter =
  filterData :: "complex list"
  fsize :: nat
  dataSize :: nat
  origin :: nat
  isDouble :: bool
  isComplex :: bool
  symmetry :: FilterSymmetry

text \<open>\<^verbatim>\<open>CopyReverseData\<close>, lines 41-56: the first \<open>n\<close> source values, last first.\<close>

definition CopyReverseData :: "'a list \<Rightarrow> nat \<Rightarrow> 'a list" where
  "CopyReverseData src n = rev (take n src)"

text \<open>The \<^verbatim>\<open>reinterpret_cast\<close> of the \<^verbatim>\<open>dfloat\<close> vector to \<^verbatim>\<open>dcomplex const*\<close>.\<close>

fun as_dcomplex :: "real list \<Rightarrow> complex list" where
  "as_dcomplex (re # im # xs) = Complex re im # as_dcomplex xs"
| "as_dcomplex xs = []"

text \<open>
  Lines 81-103: the symmetry tag and the size of the whole filter, from the symmetry
  string and the number of stored samples (which is not zero here). The constants
  \<^verbatim>\<open>S::EVEN\<close>, \<^verbatim>\<open>S::ODD\<close> and \<^verbatim>\<open>S::CONJ\<close> are declared outside the sources; they
  are "even" and "odd" as the doctest writes them (lines 739 and 754), and "conj".
\<close>

definition symmetry_and_size :: "string \<Rightarrow> bool \<Rightarrow> nat \<Rightarrow> error + (FilterSymmetry \<times> nat)" where
  "symmetry_and_size s useComplex sz =
     (if s = [] \<or> s = ''general'' then Inr (GENERAL, sz)
      else if s = ''even'' then Inr (EVEN, sz + (sz - 1))
      else if s = ''odd'' then Inr (ODD, sz + (sz - 1))
      else if s = ''conj'' then Inr (if useComplex then CONJ else EVEN, sz + (sz - 1))
      else if s = ''d-even'' then Inr (D_EVEN, sz + sz)
      else if s = ''d-odd'' then Inr (D_ODD, sz + sz)
      else if s = ''d-conj'' then Inr (if useComplex then D_CONJ else D_EVEN, sz + sz)
      else Inl SYMMETRY_NOT_RECOGNIZED)"

text \<open>Lines 104-109: the origin as an index into the filter as the caller wrote it.\<close>

definition origin_index :: "int \<Rightarrow> nat \<Rightarrow> error + nat" where
  "origin_index o_in sz =
     (if o_in < 0 then Inr (sz div 2)
      else if nat o_in \<ge> sz then Inl ORIGIN_OUTSIDE_OF_FILTER
      else Inr (nat o_in))"

text \<open>
  The constructor, lines 67-148. A filter with no samples leaves every member at its
  default (size 0, origin 0, symmetry \<^verbatim>\<open>GENERAL\<close>): the symmetry string and the origin
  are then not looked at.
\<close>

definition InternOneDimensionalFilter ::
    "OneDimensionalFilter \<Rightarrow> bool \<Rightarrow> bool \<Rightarrow> error + InternOneDimensionalFilter" where
  "InternOneDimensionalFilter f useDouble useComplex =
     (let n0 = length (f_filter f) in
      if f_isComplex f \<and> odd n0 then Inl COMPLEX_FILTER_ODD_LENGTH
      else if f_isComplex f \<and> \<not> useComplex then Inl COMPLEX_FILTER_NOT_EXPECTED
      else
        let ds = (if f_isComplex f then n0 div 2 else n0) in
        if ds = 0 then
          Inr \<lparr> filterData = [], fsize = 0, dataSize = 0, origin = 0,
                isDouble = useDouble, isComplex = useComplex, symmetry = GENERAL \<rparr>
        else
          case symmetry_and_size (f_symmetry f) useComplex ds of
            Inl e \<Rightarrow> Inl e
          | Inr (smt, sz) \<Rightarrow>
              (case origin_index (f_origin f) sz of
                 Inl e \<Rightarrow> Inl e
               | Inr og \<Rightarrow>
                   Inr \<lparr> filterData =
                           (if f_isComplex f
                            then CopyReverseData (as_dcomplex (f_filter f)) ds
                            else CopyReverseData (map complex_of_real (f_filter f)) ds),
                         fsize = sz, dataSize = ds, origin = sz - og - 1,
                         isDouble = useDouble, isComplex = useComplex, symmetry = smt \<rparr>))"

text \<open>
  The line filter, lines 175-290. The input buffer is the image line with its border:
  index 0 is the first pixel of the line, negative indices and indices from the line
  length on are the border that the framework filled in from the boundary condition.
  A pointer into the buffer is an \<open>int\<close>.
\<close>

type_synonym buffer = "int \<Rightarrow> complex"

text \<open>
  The inner loop of the \<^verbatim>\<open>GENERAL\<close> case (lines 197-199):
  \<^verbatim>\<open>for( f = filter; f != filterEnd; ++f, ++in_t ) sum += *f * *in_t;\<close>
  (\<open>acc\<close> is the running \<^verbatim>\<open>sum\<close>).
\<close>

fun mac_general :: "complex list \<Rightarrow> buffer \<Rightarrow> int \<Rightarrow> complex \<Rightarrow> complex" where
  "mac_general [] buf in_t acc = acc"
| "mac_general (f # fs) buf in_t acc = mac_general fs buf (in_t + 1) (acc + f * buf in_t)"

text \<open>
  The inner loop of the symmetric cases (lines 211-213 and alike):
  \<^verbatim>\<open>for( ...; f != filterEnd; ++f, --in_l, ++in_r ) sum += g( *f, *in_r, *in_l );\<close>
\<close>

fun mac_fold ::
    "(complex \<Rightarrow> complex \<Rightarrow> complex \<Rightarrow> complex) \<Rightarrow> complex list \<Rightarrow> buffer \<Rightarrow> int \<Rightarrow> int \<Rightarrow> complex \<Rightarrow> complex" where
  "mac_fold g [] buf in_l in_r acc = acc"
| "mac_fold g (f # fs) buf in_l in_r acc =
     mac_fold g fs buf (in_l - 1) (in_r + 1) (acc + g f (buf in_r) (buf in_l))"

definition g_even :: "complex \<Rightarrow> complex \<Rightarrow> complex \<Rightarrow> complex" where
  "g_even f r l = f * (r + l)"

definition g_odd :: "complex \<Rightarrow> complex \<Rightarrow> complex \<Rightarrow> complex" where
  "g_odd f r l = f * (r - l)"

definition g_conj :: "complex \<Rightarrow> complex \<Rightarrow> complex \<Rightarrow> complex" where
  "g_conj f r l = f * r + cnj f * l"

text \<open>
  One output sample: the body of the loop over \<^verbatim>\<open>ii\<close>, with \<open>p\<close> the value of
  the pointer \<^verbatim>\<open>in\<close> at that iteration.
\<close>

definition Filter_sample :: "FilterSymmetry \<Rightarrow> complex list \<Rightarrow> buffer \<Rightarrow> int \<Rightarrow> complex" where
  "Filter_sample smt flt buf p =
     (case smt of
        GENERAL \<Rightarrow> mac_general flt buf p 0
      | EVEN \<Rightarrow> mac_fold g_even (tl flt) buf (p - 1) (p + 1) (hd flt * buf p)
      | ODD \<Rightarrow> mac_fold g_odd (tl flt) buf (p - 1) (p + 1) (hd flt * buf p)
      | CONJ \<Rightarrow> mac_fold g_conj (tl flt) buf (p - 1) (p + 1) (hd flt * buf p)
      | D_EVEN \<Rightarrow> mac_fold g_even flt buf (p - 1) p 0
      | D_ODD \<Rightarrow> mac_fold g_odd flt buf (p - 1) p 0
      | D_CONJ \<Rightarrow> mac_fold g_conj flt buf (p - 1) p 0)"

text \<open>
  Where \<^verbatim>\<open>in\<close> points before the loop over \<^verbatim>\<open>ii\<close>: \<^verbatim>\<open>in -= origin\<close> (line 191)
  and, in every case but \<^verbatim>\<open>GENERAL\<close>, \<^verbatim>\<open>in += dataSize - 1\<close>.
\<close>

definition in_start :: "InternOneDimensionalFilter \<Rightarrow> int" where
  "in_start fd =
     (if symmetry fd = GENERAL then - int (origin fd)
      else - int (origin fd) + (int (dataSize fd) - 1))"

text \<open>
  \<^verbatim>\<open>SeparableConvolutionLineFilter::Filter\<close>: the output line for a buffer and a line
  length. \<open>Filter_dim\<close> selects the filter as lines 181-185 do.
\<close>

definition Filter :: "InternOneDimensionalFilter \<Rightarrow> buffer \<Rightarrow> nat \<Rightarrow> complex list" where
  "Filter fd buf len =
     map (\<lambda>ii. Filter_sample (symmetry fd) (filterData fd) buf (in_start fd + int ii)) [0..<len]"

definition Filter_dim :: "InternOneDimensionalFilter list \<Rightarrow> nat \<Rightarrow> buffer \<Rightarrow> nat \<Rightarrow> complex list" where
  "Filter_dim filters dimension buf len =
     (let procDim = (if length filters > 1 then dimension else 0)
      in Filter (filters ! procDim) buf len)"

text \<open>\<^verbatim>\<open>IsMeaninglessFilter\<close>, lines 295-305.\<close>

definition IsMeaninglessFilter :: "InternOneDimensionalFilter \<Rightarrow> bool" where
  "IsMeaninglessFilter fd \<longleftrightarrow>
     fsize fd = 0 \<or> (fsize fd = 1 \<and> hd (filterData fd) = 1)"

text \<open>
  \<^verbatim>\<open>dip::uint\<close> is a 64-bit unsigned integer. Sizes, origins and borders are natural
  numbers here; a subtraction of the code that can go below zero is written with its
  wrap-around.
\<close>

definition uint_sub :: "nat \<Rightarrow> nat \<Rightarrow> nat" where
  "uint_sub a b = (a + 2 ^ 64 - b mod 2 ^ 64) mod 2 ^ 64"

text \<open>
  Lines 348-350 and 354-356:
  \<^verbatim>\<open>sz = filterData[ ii ].size; b = filterData[ ii ].origin; b = std::max( b, sz - b - 1 );\<close>
\<close>

definition border_of :: "InternOneDimensionalFilter \<Rightarrow> nat" where
  "border_of fd =
     (let sz = fsize fd; b = origin fd
      in max b (uint_sub (uint_sub sz b) 1))"

text \<open>
  A data type, as far as the code asks about it: \<^verbatim>\<open>IsBinary()\<close> and \<^verbatim>\<open>IsReal()\<close>.
\<close>

record DataType =
  IsBinary :: bool
  IsReal :: bool

definition DT_BIN :: DataType where
  "DT_BIN = \<lparr> IsBinary = True, IsReal = False \<rparr>"

definition DT_SFLOAT :: DataType where
  "DT_SFLOAT = \<lparr> IsBinary = False, IsReal = True \<rparr>"

text \<open>
  An image, as far as this file looks at it: whether it is forged, its sizes, its data
  type, and the sample at each coordinate array. In \<^verbatim>\<open>SeparableConvolution\<close> the data
  type only selects the precision (\<^verbatim>\<open>DataType::SuggestFlex\<close> and
  \<^verbatim>\<open>DataType::SuggestComplex\<close>, which are not among the sources), so the functions
  below take \<open>useDouble\<close> as an argument.
\<close>

record Image =
  forged :: bool
  sizes :: "nat list"
  dataType :: DataType
  pixel :: "nat list \<Rightarrow> complex"

text \<open>Lines 338-343: the loop of \<^verbatim>\<open>emplace_back\<close>, which ends at the first throw.\<close>

fun intern_all ::
    "OneDimensionalFilter list \<Rightarrow> bool \<Rightarrow> bool \<Rightarrow> error + InternOneDimensionalFilter list" where
  "intern_all [] useDouble useComplex = Inr []"
| "intern_all (f # fs) useDouble useComplex =
     (case InternOneDimensionalFilter f useDouble useComplex of
        Inl e \<Rightarrow> Inl e
      | Inr fd \<Rightarrow>
          (case intern_all fs useDouble useComplex of
             Inl e \<Rightarrow> Inl e
           | Inr fds \<Rightarrow> Inr (fd # fds)))"

text \<open>
  What \<^verbatim>\<open>SeparableConvolution\<close> hands to \<^verbatim>\<open>Framework::Separable\<close> (line 409): the
  internal filters that the line filter holds, the \<^verbatim>\<open>border\<close> array and the
  \<^verbatim>\<open>process\<close> array.
\<close>

record SeparableArgs =
  sa_filterData :: "InternOneDimensionalFilter list"
  sa_border :: "nat list"
  sa_process :: "bool list"

text \<open>\<^verbatim>\<open>SeparableConvolution\<close>, lines 310-378: everything before the framework call.\<close>

definition SeparableConvolution_args ::
    "Image \<Rightarrow> OneDimensionalFilter list \<Rightarrow> bool list \<Rightarrow> bool \<Rightarrow> error + SeparableArgs" where
  "SeparableConvolution_args img filterArray process useDouble =
     (if \<not> forged img then Inl IMAGE_NOT_FORGED
      else
        let nDims = length (sizes img) in
        if nDims < 1 then Inl DIMENSIONALITY_NOT_SUPPORTED
        else if length filterArray \<noteq> 1 \<and> length filterArray \<noteq> nDims
        then Inl ARRAY_PARAMETER_WRONG_LENGTH
        else
          let isComplexFilter = list_ex f_isComplex filterArray in
          case intern_all filterArray useDouble isComplexFilter of
            Inl e \<Rightarrow> Inl e
          | Inr fds \<Rightarrow>
              let border =
                    (if length fds = 1 then replicate nDims (border_of (fds ! 0))
                     else map (\<lambda>ii. border_of (fds ! ii)) [0..<nDims]) in
              if process \<noteq> [] \<and> length process \<noteq> nDims
              then Inl ARRAY_PARAMETER_WRONG_LENGTH
              else
                let process1 = (if process = [] then replicate nDims True else process);
                    process2 =
                      (if length fds = 1
                       then (if IsMeaninglessFilter (fds ! 0)
                             then replicate nDims False else process1)
                       else map (\<lambda>ii. if sizes img ! ii \<le> 1 \<or> IsMeaninglessFilter (fds ! ii)
                                       then False else process1 ! ii) [0..<nDims])
                in Inr \<lparr> sa_filterData = fds, sa_border = border, sa_process = process2 \<rparr>)"

subsection \<open>The separable framework\<close>

text \<open>
  Modelled from the spec: \<^verbatim>\<open>Framework::Separable\<close> and the boundary extension are not
  among the sources. Section 4.2: "apply each selected filter along its axis, in
  dimension order, using the previous axis's output as the next axis's input", "extend
  each scan line virtually by the filter's required border using the boundary
  condition". The boundary conditions modelled are zero-fill and periodic.
\<close>

datatype BoundaryCondition = ADD_ZEROS | PERIODIC

definition extend_line :: "BoundaryCondition \<Rightarrow> complex list \<Rightarrow> buffer" where
  "extend_line bc xs k =
     (if 0 \<le> k \<and> k < int (length xs) then xs ! nat k
      else case bc of
             ADD_ZEROS \<Rightarrow> 0
           | PERIODIC \<Rightarrow> xs ! nat (k mod int (length xs)))"

definition image_line :: "Image \<Rightarrow> nat \<Rightarrow> nat list \<Rightarrow> complex list" where
  "image_line img d c = map (\<lambda>j. pixel img (c[d := j])) [0..<sizes img ! d]"

definition in_image :: "Image \<Rightarrow> nat list \<Rightarrow> bool" where
  "in_image img c \<longleftrightarrow> length c = length (sizes img) \<and> (\<forall>d < length c. c ! d < sizes img ! d)"

definition Separable_pass ::
    "(nat \<Rightarrow> buffer \<Rightarrow> nat \<Rightarrow> complex list) \<Rightarrow> BoundaryCondition \<Rightarrow> Image \<Rightarrow> nat \<Rightarrow> Image" where
  "Separable_pass lineFilter bc img d =
     img \<lparr> pixel := (\<lambda>c. if in_image img c
                          then lineFilter d (extend_line bc (image_line img d c)) (sizes img ! d) ! (c ! d)
                          else pixel img c) \<rparr>"

definition Framework_Separable ::
    "Image \<Rightarrow> bool list \<Rightarrow> BoundaryCondition \<Rightarrow> (nat \<Rightarrow> buffer \<Rightarrow> nat \<Rightarrow> complex list) \<Rightarrow> Image" where
  "Framework_Separable img process bc lineFilter =
     foldl (\<lambda>im d. if process ! d then Separable_pass lineFilter bc im d else im)
       img [0..<length (sizes img)]"

text \<open>\<^verbatim>\<open>SeparableConvolution\<close>, lines 310-412.\<close>

definition SeparableConvolution ::
    "Image \<Rightarrow> OneDimensionalFilter list \<Rightarrow> BoundaryCondition \<Rightarrow> bool list \<Rightarrow> bool \<Rightarrow> error + Image" where
  "SeparableConvolution img filterArray bc process useDouble =
     (case SeparableConvolution_args img filterArray process useDouble of
        Inl e \<Rightarrow> Inl e
      | Inr args \<Rightarrow>
          Inr (Framework_Separable img (sa_process args) bc (Filter_dim (sa_filterData args))))"

text \<open>
  Line 146 stores the origin as an index into the reversed filter. \<open>tap_origin\<close> reads
  it back as an index into the filter as the caller wrote it.
\<close>

definition tap_origin :: "InternOneDimensionalFilter \<Rightarrow> nat" where
  "tap_origin fd = fsize fd - 1 - origin fd"

subsection \<open>Symmetric filters written out in full\<close>

text \<open>
  Following the spec's words (section 3: "symmetric variants store only the
  non-redundant half of the taps; the full logical length is derivable from the tag and
  half-length"), and the doctest of the source (lines 728-786), which compares the
  stored half \<open>a b c\<close> with the full filters \<open>a b c b a\<close> ("even"),
  \<open>a b c -b -a\<close> ("odd"), \<open>a b c c b a\<close> ("d-even") and \<open>a b c -c -b -a\<close> ("d-odd")
  under the tag "general".
\<close>

definition mirror_even :: "real list \<Rightarrow> real list" where
  "mirror_even h = h @ rev (butlast h)"

definition mirror_odd :: "real list \<Rightarrow> real list" where
  "mirror_odd h = h @ map uminus (rev (butlast h))"

definition mirror_d_even :: "real list \<Rightarrow> real list" where
  "mirror_d_even h = h @ rev h"

definition mirror_d_odd :: "real list \<Rightarrow> real list" where
  "mirror_d_odd h = h @ map uminus (rev h)"

text \<open>
  Following the spec's words ("a kernel consisting of a single tap equal to 1"): the
  caller's filter stands for exactly one tap, and that tap is 1. With the tags "d-even",
  "d-odd" and "d-conj" one stored sample stands for two taps, so they are not included.
  A complex filter stores the tap as the pair 1, 0.
\<close>

definition single_unit_tap :: "OneDimensionalFilter \<Rightarrow> bool" where
  "single_unit_tap f \<longleftrightarrow>
     f_symmetry f \<in> set ['''', ''general'', ''even'', ''odd'', ''conj''] \<and>
     (if f_isComplex f then f_filter f = [1, 0] else f_filter f = [1])"

section \<open>The convolution dispatcher and the Fourier path\<close>

text \<open>
  Modelled from the spec: the string constants of namespace \<^verbatim>\<open>S\<close> are declared in a
  header that is not among the sources. Section 6: "a string enumeration
  {"direct","separable","Fourier","best"} accepted by the top-level convolution entry
  point"; the representations are "spatial" and "frequency".
\<close>

definition S_DIRECT :: string where "S_DIRECT = ''direct''"
definition S_FOURIER :: string where "S_FOURIER = ''Fourier''"
definition S_SEPARABLE :: string where "S_SEPARABLE = ''separable''"
definition S_BEST :: string where "S_BEST = ''best''"
definition S_SPATIAL :: string where "S_SPATIAL = ''spatial''"
definition S_FREQUENCY :: string where "S_FREQUENCY = ''frequency''"

text \<open>
  Image methods that the code calls and that are not among the sources, by what they do
  to the sizes: \<^verbatim>\<open>ExpandDimensionality\<close> appends dimensions of size 1,
  \<^verbatim>\<open>NumberOfPixels\<close> is the product of the sizes.
\<close>

definition Dimensionality :: "Image \<Rightarrow> nat" where
  "Dimensionality img = length (sizes img)"

definition ExpandDimensionality :: "Image \<Rightarrow> nat \<Rightarrow> Image" where
  "ExpandDimensionality img n =
     img \<lparr> sizes := sizes img @ replicate (n - length (sizes img)) 1 \<rparr>"

definition NumberOfPixels :: "Image \<Rightarrow> nat" where
  "NumberOfPixels img = prod_list (sizes img)"

text \<open>
  Lines 638-674 of \<^verbatim>\<open>Convolution\<close>: which methods to try. The estimated times are
  \<^verbatim>\<open>dfloat\<close> in the code and exact reals here.
\<close>

definition try_methods :: "Image \<Rightarrow> Image \<Rightarrow> string \<Rightarrow> error + (bool \<times> bool \<times> bool)" where
  "try_methods img flt method =
     (if method = S_DIRECT then Inr (False, False, True)
      else if method = S_FOURIER then Inr (False, True, False)
      else if method = S_SEPARABLE then Inr (True, False, False)
      else if method = S_BEST then
        (let n = real (NumberOfPixels img);
             ks = real (sum_list (sizes flt));
             kp = real (prod_list (sizes flt));
             nx = real (prod_list (map2 (+) (sizes img) (sizes flt)));
             timeFourier = 1635 / 10 ^ 11 * nx + 8781 / 10 ^ 7;
             timeSeparable = 1434 / 10 ^ 13 * n * ks + 4987 / 10 ^ 9 * ks;
             timeDirect = 1806 / 10 ^ 13 * n * kp + 1206 / 10 ^ 8 * kp;
             trySeparable = (timeSeparable < timeFourier);
             tryFourier = (timeFourier < timeDirect);
             tryDirect = (\<not> tryFourier)
         in Inr (trySeparable, tryFourier, tryDirect))
      else Inl INVALID_FLAG)"

text \<open>
  \<^verbatim>\<open>Convolution\<close> ends in exactly one call of one of the three implementations, or
  in a throw. The result here is that call with its filter and boundary condition
  arguments.
\<close>

datatype Strategy =
    CallSeparableConvolution "OneDimensionalFilter list" "string list"
  | CallConvolveFT Image "string list"
  | CallGeneralConvolution Image "string list"

text \<open>
  \<^verbatim>\<open>Convolution\<close>, lines 618-704. \<^verbatim>\<open>dip::SeparateFilter\<close> is not among the sources and
  is the argument \<open>SeparateFilter\<close>: it returns the one-dimensional filters of a
  separable kernel, and an empty array when the kernel is not separable (line 679).
\<close>

definition Convolution ::
    "(Image \<Rightarrow> OneDimensionalFilter list) \<Rightarrow> Image \<Rightarrow> Image \<Rightarrow> string \<Rightarrow> string list \<Rightarrow> error + Strategy" where
  "Convolution SeparateFilter img filter_c method boundaryCondition =
     (if \<not> forged img \<or> \<not> forged filter_c then Inl IMAGE_NOT_FORGED
      else
        let flt = (if Dimensionality filter_c < Dimensionality img
                   then ExpandDimensionality filter_c (Dimensionality img) else filter_c) in
        if Dimensionality flt > Dimensionality img then Inl DIMENSIONALITIES_DONT_MATCH
        else
          case try_methods img flt method of
            Inl e \<Rightarrow> Inl e
          | Inr (trySeparable, tryFourier, tryDirect) \<Rightarrow>
              if trySeparable \<and> SeparateFilter flt \<noteq> []
              then Inr (CallSeparableConvolution (SeparateFilter flt) boundaryCondition)
              else if trySeparable \<and> \<not> tryFourier \<and> \<not> tryDirect then Inl FILTER_NOT_SEPARABLE
              else if tryFourier \<and>
                      (\<not> tryDirect \<or> NumberOfPixels flt > 7 ^ Dimensionality img)
              then Inr (CallConvolveFT flt (if boundaryCondition = [] then [''''] else boundaryCondition))
              else Inr (CallGeneralConvolution flt boundaryCondition))"

text \<open>
  \<^verbatim>\<open>BooleanFromString\<close> is not among the sources: true for the first string, false for
  the second, a throw for any other.
\<close>

definition BooleanFromString :: "string \<Rightarrow> string \<Rightarrow> string \<Rightarrow> error + bool" where
  "BooleanFromString s trueString falseString =
     (if s = trueString then Inr True
      else if s = falseString then Inr False
      else Inl INVALID_FLAG)"

text \<open>
  The comparison of two size arrays is not among the sources. It holds when the arrays
  have the same length and every pair of elements compares ("Also throws if
  dimensionalities don't match", line 439).
\<close>

definition sizes_le :: "nat list \<Rightarrow> nat list \<Rightarrow> bool" where
  "sizes_le a b \<longleftrightarrow> length a = length b \<and> list_all2 (\<le>) a b"

definition sizes_lt :: "nat list \<Rightarrow> nat list \<Rightarrow> bool" where
  "sizes_lt a b \<longleftrightarrow> length a = length b \<and> list_all2 (<) a b"

text \<open>
  \<^verbatim>\<open>Image::Size( dim )\<close> as line 453 calls it. The code does not check \<open>d\<close> against
  the number of dimensions and nothing throws: for a \<open>d\<close> that the image does not have,
  the read goes past the end of the size array, and \<open>beyond\<close> stands for whatever it
  returns.
\<close>

definition Size_unchecked :: "(nat \<Rightarrow> nat) \<Rightarrow> Image \<Rightarrow> nat \<Rightarrow> nat" where
  "Size_unchecked beyond img d =
     (if d < length (sizes img) then sizes img ! d else beyond d)"

text \<open>
  Lines 451-454: the sizes the input is padded to, from dimension \<open>ii\<close> on; \<open>filterSize\<close>
  is \<^verbatim>\<open>filter.Size\<close> of the filter as it was passed in (not of the copy that line
  437 expands). \<^verbatim>\<open>OptimalFourierTransformSize\<close> is not among the sources and is the
  argument \<open>optimalSize\<close>; it throws when the size is too large.
\<close>

fun padded_sizes :: "(nat \<Rightarrow> error + nat) \<Rightarrow> (nat \<Rightarrow> nat) \<Rightarrow> nat list \<Rightarrow> nat \<Rightarrow> error + nat list" where
  "padded_sizes optimalSize filterSize [] ii = Inr []"
| "padded_sizes optimalSize filterSize (s # ss) ii =
     (case optimalSize (uint_sub (s + filterSize ii) 1) of
        Inl e \<Rightarrow> Inl e
      | Inr s' \<Rightarrow>
          (case padded_sizes optimalSize filterSize ss (ii + 1) of
             Inl e \<Rightarrow> Inl e
           | Inr ss' \<Rightarrow> Inr (s' # ss')))"

text \<open>
  The calls \<^verbatim>\<open>ConvolveFT\<close> makes to functions that change an image, in order. The
  transform, the padding and the cropping are not among the sources. The forward
  transform of the input carries the sizes of the image it is applied to.
\<close>

datatype FTCall =
    ExtendImageToSize "nat list" "string list"
  | FourierTransform_in "nat list"
  | Pad_filter "nat list"
  | FourierTransform_filter
  | ReForge_out
  | MultiplySampleWise
  | FourierTransform_inverse bool
  | Crop "nat list"

fun is_ExtendImageToSize :: "FTCall \<Rightarrow> bool" where
  "is_ExtendImageToSize (ExtendImageToSize sz bc) = True"
| "is_ExtendImageToSize c = False"

text \<open>
  The result of \<^verbatim>\<open>ConvolveFT\<close>: the calls it made; the sizes of \<^verbatim>\<open>inFT\<close>, the image
  whose transform is multiplied with that of the filter (line 468 pads the filter to
  \<^verbatim>\<open>inFT.Sizes()\<close>); and the sizes of \<^verbatim>\<open>out\<close> when the code itself fixes them (line
  511, \<^verbatim>\<open>out = tmp.Crop( inSizes, ... )\<close>); otherwise they are whatever the transform
  gives.
\<close>

record FTResult =
  ft_calls :: "FTCall list"
  ft_transform_sizes :: "nat list"
  ft_out_sizes :: "nat list option"

text \<open>
  \<^verbatim>\<open>ConvolveFT\<close>, lines 415-516. The image that \<^verbatim>\<open>ExtendImageToSize\<close> returns has
  the sizes it was asked for, and a transform has the sizes of the image it is applied
  to.
\<close>

definition ConvolveFT ::
    "(nat \<Rightarrow> error + nat) \<Rightarrow> (nat \<Rightarrow> nat) \<Rightarrow> Image \<Rightarrow> Image \<Rightarrow> string \<Rightarrow> string \<Rightarrow> string \<Rightarrow>
     string list \<Rightarrow> error + FTResult" where
  "ConvolveFT optimalSize beyond img flt inRepresentation filterRepresentation outRepresentation
       boundaryCondition =
     (if \<not> forged img then Inl IMAGE_NOT_FORGED
      else if \<not> forged flt then Inl IMAGE_NOT_FORGED
      else
        case BooleanFromString inRepresentation S_SPATIAL S_FREQUENCY of
          Inl e \<Rightarrow> Inl e
        | Inr inSpatial \<Rightarrow>
        case BooleanFromString filterRepresentation S_SPATIAL S_FREQUENCY of
          Inl e \<Rightarrow> Inl e
        | Inr filterSpatial \<Rightarrow>
        case BooleanFromString outRepresentation S_SPATIAL S_FREQUENCY of
          Inl e \<Rightarrow> Inl e
        | Inr outSpatial \<Rightarrow>
          let filterFT = (if Dimensionality flt < Dimensionality img
                          then ExpandDimensionality flt (Dimensionality img) else flt) in
          if \<not> sizes_le (sizes filterFT) (sizes img) then Inl SIZES_DONT_MATCH
          else
            let inPadding = (inSpatial \<and> filterSpatial \<and> outSpatial \<and> boundaryCondition \<noteq> []);
                inSizes = sizes img
            in
            case (if inSpatial \<and> inPadding
                  then padded_sizes optimalSize (Size_unchecked beyond flt) inSizes 0
                  else Inr inSizes) of
              Inl e \<Rightarrow> Inl e
            | Inr inFT_sizes \<Rightarrow>
                let real1 = (if inSpatial then IsReal (dataType img) else False);
                    calls_in =
                      (if inSpatial
                       then (if inPadding
                             then [ExtendImageToSize inFT_sizes boundaryCondition,
                                   FourierTransform_in inFT_sizes]
                             else [FourierTransform_in inSizes])
                       else []);
                    calls_pad =
                      (if sizes_lt (sizes filterFT) inFT_sizes then [Pad_filter inFT_sizes] else []);
                    real2 = (if filterSpatial then real1 \<and> IsReal (dataType filterFT) else False);
                    calls_filter = (if filterSpatial then [FourierTransform_filter] else []);
                    calls_out = (if \<not> outSpatial \<or> \<not> real2 then [ReForge_out] else []);
                    calls_inv =
                      (if outSpatial
                       then (if inPadding
                             then [FourierTransform_inverse real2, Crop inSizes]
                             else [FourierTransform_inverse real2])
                       else [])
                in Inr \<lparr> ft_calls = calls_in @ calls_pad @ calls_filter @ calls_out
                                     @ [MultiplySampleWise] @ calls_inv,
                         ft_transform_sizes = inFT_sizes,
                         ft_out_sizes = (if outSpatial \<and> inPadding then Some inSizes else None) \<rparr>)"

text \<open>
  \<^verbatim>\<open>GeneralConvolution\<close>, lines 588-616. \<^verbatim>\<open>dip::Kernel\<close>, \<^verbatim>\<open>dip::Uniform\<close> and
  \<^verbatim>\<open>Framework::Full\<close> are not among the sources. A kernel is its image with the two
  flags that \<^verbatim>\<open>Mirror()\<close> and \<^verbatim>\<open>IgnoreZeros()\<close> set; \<open>Uniform\<close> and \<open>Full\<close> are
  arguments (\<open>Full\<close> stands for lines 604-614, the weighted sum over the pixel table).
\<close>

record Kernel =
  k_image :: Image
  k_mirror :: bool
  k_ignoreZeros :: bool

definition Kernel :: "Image \<Rightarrow> Kernel" where
  "Kernel img = \<lparr> k_image = img, k_mirror = False, k_ignoreZeros = False \<rparr>"

definition Mirror :: "Kernel \<Rightarrow> Kernel" where
  "Mirror k = k \<lparr> k_mirror := \<not> k_mirror k \<rparr>"

definition IgnoreZeros :: "Kernel \<Rightarrow> Kernel" where
  "IgnoreZeros k = k \<lparr> k_ignoreZeros := True \<rparr>"

definition GeneralConvolution ::
    "(Image \<Rightarrow> Kernel \<Rightarrow> string list \<Rightarrow> error + Image) \<Rightarrow>
     (Image \<Rightarrow> Kernel \<Rightarrow> string list \<Rightarrow> error + Image) \<Rightarrow>
     Image \<Rightarrow> Image \<Rightarrow> string list \<Rightarrow> error + Image" where
  "GeneralConvolution Uniform Full img c_filter boundaryCondition =
     (if \<not> forged img then Inl IMAGE_NOT_FORGED
      else if \<not> forged c_filter then Inl IMAGE_NOT_FORGED
      else
        let flt = Mirror (Kernel c_filter) in
        if IsBinary (dataType c_filter) then Uniform img flt boundaryCondition
        else Full img (IgnoreZeros flt) boundaryCondition)"

section \<open>The scan framework and singleton expansion\<close>

text \<open>
  Modelled from the spec: \<^verbatim>\<open>Framework::ScanDyadic\<close> and the image methods for singleton
  expansion are not among the sources; \<^verbatim>\<open>dip::Add\<close> (src/math/arithmetic.cpp, lines
  26-37) and its doctest (lines 654-670) are. Section 3: an array has "ordered sequence
  of dimension sizes, matching ordered sequence of strides (samples, not bytes)", and
  "a singleton-expanded dimension carries stride 0". Section 4.1: "all input arrays must
  have identical sizes once singleton dimensions are virtually broadcast (stride-0
  expansion)", and "every output sample equals the callback applied to the corresponding
  input samples". Section 8: the output is "sized to the non-singleton extent, with
  stride 0 preserved where valid".
\<close>

record Array =
  a_sizes :: "nat list"
  a_strides :: "int list"
  a_data :: "int \<Rightarrow> complex"

text \<open>The offset of a sample: the sum of coordinate times stride.\<close>

fun offset :: "nat list \<Rightarrow> int list \<Rightarrow> int" where
  "offset (x # xs) (s # ss) = int x * s + offset xs ss"
| "offset xs ss = 0"

definition At :: "Array \<Rightarrow> nat list \<Rightarrow> complex" where
  "At a c = a_data a (offset c (a_strides a))"

text \<open>The coordinates are inside the sizes.\<close>

definition in_sizes :: "nat list \<Rightarrow> nat list \<Rightarrow> bool" where
  "in_sizes c sz \<longleftrightarrow> list_all2 (<) c sz"

text \<open>
  The common size of two arrays: sizes must agree in each dimension unless one of them
  is 1; a missing dimension counts as size 1.
\<close>

fun SingletonExpandedSize :: "nat list \<Rightarrow> nat list \<Rightarrow> error + nat list" where
  "SingletonExpandedSize (a # as) (b # bs) =
     (if a \<noteq> b \<and> a \<noteq> 1 \<and> b \<noteq> 1 then Inl SIZES_DONT_MATCH
      else case SingletonExpandedSize as bs of
             Inl e \<Rightarrow> Inl e
           | Inr sz \<Rightarrow> Inr ((if a = 1 then b else a) # sz))"
| "SingletonExpandedSize [] bs = Inr bs"
| "SingletonExpandedSize as [] = Inr as"

text \<open>
  The strides of an array seen at a larger size: a dimension whose size changes (from 1)
  and a dimension the array does not have get stride 0.
\<close>

fun expanded_strides :: "nat list \<Rightarrow> int list \<Rightarrow> nat list \<Rightarrow> int list" where
  "expanded_strides (a # as) (s # ss) (t # ts) = (if a = t then s else 0) # expanded_strides as ss ts"
| "expanded_strides as ss (t # ts) = 0 # expanded_strides [] [] ts"
| "expanded_strides as ss [] = []"

definition ExpandSingletonDimensions :: "Array \<Rightarrow> nat list \<Rightarrow> Array" where
  "ExpandSingletonDimensions a sz =
     a \<lparr> a_sizes := sz, a_strides := expanded_strides (a_sizes a) (a_strides a) sz \<rparr>"

text \<open>\<^verbatim>\<open>Image::ExpandSingletonDimension( dim, newSize )\<close>, as the doctest calls it.\<close>

definition ExpandSingletonDimension :: "Array \<Rightarrow> nat \<Rightarrow> nat \<Rightarrow> error + Array" where
  "ExpandSingletonDimension a d n =
     (if d < length (a_sizes a) \<and> d < length (a_strides a) \<and> a_sizes a ! d = 1
      then Inr (a \<lparr> a_sizes := (a_sizes a)[d := n], a_strides := (a_strides a)[d := 0] \<rparr>)
      else Inl SIZES_DONT_MATCH)"

text \<open>The strides of a newly forged image: the first dimension is contiguous.\<close>

fun normal_strides :: "nat list \<Rightarrow> int \<Rightarrow> int list" where
  "normal_strides [] k = []"
| "normal_strides (s # ss) k = k # normal_strides ss (k * int s)"

text \<open>The coordinates of the sample at an offset of a newly forged image.\<close>

fun coords_of :: "nat list \<Rightarrow> nat \<Rightarrow> nat list" where
  "coords_of [] n = []"
| "coords_of (s # ss) n = (n mod s) # coords_of ss (n div s)"

text \<open>
  The dyadic scan. A dimension in which both expanded inputs have stride 0 is computed at
  size 1 and expanded afterwards, so the output has stride 0 there.
\<close>

definition ScanDyadic ::
    "(complex \<Rightarrow> complex \<Rightarrow> complex) \<Rightarrow> Array \<Rightarrow> Array \<Rightarrow> error + Array" where
  "ScanDyadic f lhs rhs =
     (case SingletonExpandedSize (a_sizes lhs) (a_sizes rhs) of
        Inl e \<Rightarrow> Inl e
      | Inr sz \<Rightarrow>
          let l = ExpandSingletonDimensions lhs sz;
              r = ExpandSingletonDimensions rhs sz;
              single = map2 (\<lambda>sl sr. sl = 0 \<and> sr = 0) (a_strides l) (a_strides r);
              alloc = map2 (\<lambda>sg s. if sg then 1 else s) single sz;
              strides = map2 (\<lambda>sg k. if sg then 0 else k) single (normal_strides alloc 1)
          in Inr \<lparr> a_sizes = sz, a_strides = strides,
                   a_data = (\<lambda>n. let c = coords_of alloc (nat n) in f (At l c) (At r c)) \<rparr>)"

text \<open>
  \<^verbatim>\<open>dip::Add\<close>, lines 26-37 of src/math/arithmetic.cpp: the dyadic scan with
  \<^verbatim>\<open>saturated_add\<close>, which on the floating-point and complex types is the sum.
\<close>

definition Add :: "Array \<Rightarrow> Array \<Rightarrow> error + Array" where
  "Add lhs rhs = ScanDyadic (\<lambda>a b. a + b) lhs rhs"

text \<open>
  The images of the doctest (lines 654-670): a 256 by 1 image filled with 0, and the
  scalar 1 as an image without dimensions.
\<close>

definition zero_image_256 :: Array where
  "zero_image_256 = \<lparr> a_sizes = [256, 1], a_strides = [1, 256], a_data = (\<lambda>n. 0) \<rparr>"

definition scalar_one :: Array where
  "scalar_one = \<lparr> a_sizes = [], a_strides = [], a_data = (\<lambda>n. 1) \<rparr>"

text \<open>The index of a coordinate array in a newly forged image of the given sizes.\<close>

fun lin :: "nat list \<Rightarrow> nat list \<Rightarrow> nat" where
  "lin (s # ss) (x # xs) = x + s * lin ss xs"
| "lin ss xs = 0"


section \<open>Properties\<close>

subsection \<open>The origin of a one-dimensional filter\<close>

lemma symmetry_and_size_pos:
  "symmetry_and_size s uc ds = Inr (smt, sz) \<Longrightarrow> ds \<noteq> 0 \<Longrightarrow> ds \<le> sz"
  by (auto simp: symmetry_and_size_def split: if_splits)

text \<open>
  Claim C10, amended. For a filter that stores at least one sample and passes the checks
  on complex data and on the symmetry string, with \<open>sz\<close> the size of the whole filter:
  a negative origin gives the central tap \<open>sz div 2\<close> and no throw; an origin from
  \<open>sz\<close> on throws "Origin outside of filter"; an origin from 0 to \<open>sz - 1\<close> is kept
  (line 146 then stores it as the index of the same tap in the reversed filter). A
  filter with no samples is outside this statement: its origin is never looked at.
\<close>

theorem origin_handling:
  assumes "\<not> (f_isComplex f \<and> odd (length (f_filter f)))"
      and "\<not> (f_isComplex f \<and> \<not> useComplex)"
      and "ds = (if f_isComplex f then length (f_filter f) div 2 else length (f_filter f))"
      and "ds \<noteq> 0"
      and "symmetry_and_size (f_symmetry f) useComplex ds = Inr (smt, sz)"
  shows "(f_origin f < 0 \<longrightarrow>
            map_sum id (\<lambda>fd. (fsize fd, tap_origin fd)) (InternOneDimensionalFilter f useDouble useComplex)
              = Inr (sz, sz div 2))
       \<and> (0 \<le> f_origin f \<and> sz \<le> nat (f_origin f) \<longrightarrow>
            InternOneDimensionalFilter f useDouble useComplex = Inl ORIGIN_OUTSIDE_OF_FILTER)
       \<and> (0 \<le> f_origin f \<and> nat (f_origin f) < sz \<longrightarrow>
            map_sum id (\<lambda>fd. (fsize fd, tap_origin fd)) (InternOneDimensionalFilter f useDouble useComplex)
              = Inr (sz, nat (f_origin f)))"
proof -
  have pos: "0 < sz"
    using symmetry_and_size_pos [OF assms(5) assms(4)] assms(4) by simp
  then have half: "sz - 1 - (sz - sz div 2 - 1) = sz div 2"
    by simp
  show ?thesis
    using assms pos half
    by (auto simp: InternOneDimensionalFilter_def origin_index_def tap_origin_def Let_def)
qed

text \<open>
  The three cases at the filter with the samples 1, 2, 3 and symmetry "even" (size 5):
  origins -1, 5 and 4.
\<close>

theorem origin_handling_witness:
  "map_sum id (\<lambda>fd. (fsize fd, tap_origin fd))
     (InternOneDimensionalFilter
        \<lparr> f_filter = [1, 2, 3], f_origin = - 1, f_symmetry = ''even'', f_isComplex = False \<rparr> True False)
     = Inr (5, 2)
   \<and> InternOneDimensionalFilter
        \<lparr> f_filter = [1, 2, 3], f_origin = 5, f_symmetry = ''even'', f_isComplex = False \<rparr> True False
     = Inl ORIGIN_OUTSIDE_OF_FILTER
   \<and> map_sum id (\<lambda>fd. (fsize fd, tap_origin fd))
     (InternOneDimensionalFilter
        \<lparr> f_filter = [1, 2, 3], f_origin = 4, f_symmetry = ''even'', f_isComplex = False \<rparr> True False)
     = Inr (5, 4)"
proof -
  have s: "symmetry_and_size ''even'' False 3 = Inr (EVEN, 5)"
    by (simp add: symmetry_and_size_def)
  show ?thesis
    using origin_handling [of "\<lparr> f_filter = [1, 2, 3], f_origin = - 1, f_symmetry = ''even'', f_isComplex = False \<rparr>" False 3 EVEN 5 True]
          origin_handling [of "\<lparr> f_filter = [1, 2, 3], f_origin = 5, f_symmetry = ''even'', f_isComplex = False \<rparr>" False 3 EVEN 5 True]
          origin_handling [of "\<lparr> f_filter = [1, 2, 3], f_origin = 4, f_symmetry = ''even'', f_isComplex = False \<rparr>" False 3 EVEN 5 True]
          s
    by simp
qed

text \<open>
  Claim C10 as it is written fails at a filter with no samples: its size is 0, the
  origin 3 is not negative and not below the size, and the constructor returns without
  a throw, because lines 104-109 are inside \<^verbatim>\<open>if( size != 0 )\<close>.
\<close>

theorem origin_empty_filter_no_throw:
  "InternOneDimensionalFilter
     \<lparr> f_filter = [], f_origin = 3, f_symmetry = ''general'', f_isComplex = False \<rparr> True False
   = Inr \<lparr> filterData = [], fsize = 0, dataSize = 0, origin = 0,
           isDouble = True, isComplex = False, symmetry = GENERAL \<rparr>"
  by (simp add: InternOneDimensionalFilter_def)

subsection \<open>The border array\<close>

lemma uint_sub_le:
  assumes "b \<le> a" and "a < 2 ^ 64"
  shows "uint_sub a b = a - b"
proof -
  have b: "b mod 2 ^ 64 = b"
    using assms by simp
  have "a + 2 ^ 64 - b = (a - b) + 2 ^ 64"
    using assms(1) by simp
  then have "(a + 2 ^ 64 - b) mod 2 ^ 64 = (a - b) mod 2 ^ 64"
    by (simp only: mod_add_self2)
  also have "\<dots> = a - b"
    using assms(2) by simp
  finally show ?thesis
    by (simp only: uint_sub_def b)
qed

lemma intern_origin_lt:
  assumes "InternOneDimensionalFilter f ud uc = Inr fd" and "fsize fd \<noteq> 0"
  shows "origin fd < fsize fd" and "tap_origin fd < fsize fd"
    and "origin fd = fsize fd - 1 - tap_origin fd"
  using assms
  by (auto simp: InternOneDimensionalFilter_def origin_index_def tap_origin_def Let_def
           split: if_splits sum.splits prod.splits)

text \<open>
  For a filter of size at least 1 the border is the larger of the number of taps before
  the origin and the number of taps after it, whichever end the origin is counted from.
\<close>

lemma border_of_nonempty:
  assumes "InternOneDimensionalFilter f ud uc = Inr fd"
      and "fsize fd \<noteq> 0" and "fsize fd < 2 ^ 64"
  shows "border_of fd = max (tap_origin fd) (fsize fd - tap_origin fd - 1)"
proof -
  note lt = intern_origin_lt [OF assms(1,2)]
  have "uint_sub (fsize fd) (origin fd) = fsize fd - origin fd"
    using lt(1) assms(3) by (simp add: uint_sub_le)
  moreover have "uint_sub (fsize fd - origin fd) 1 = fsize fd - origin fd - 1"
    using lt(1) assms(3) by (intro uint_sub_le) auto
  ultimately have "border_of fd = max (origin fd) (fsize fd - origin fd - 1)"
    by (simp add: border_of_def Let_def)
  also have "\<dots> = max (tap_origin fd) (fsize fd - tap_origin fd - 1)"
    using lt(1) by (auto simp: tap_origin_def max_def)
  finally show ?thesis .
qed

text \<open>
  A filter with no samples has size 0 and origin 0, so \<^verbatim>\<open>sz - b - 1\<close> wraps around and
  its entry of the border array is \<open>2 ^ 64 - 1\<close>. Its dimension is marked as not
  processed (lines 367-377), so no line is extended by that entry.
\<close>

lemma border_of_unprocessed_empty_filter:
  "map_sum id (\<lambda>args. (sa_border args, sa_process args))
     (SeparableConvolution_args
        \<lparr> forged = True, sizes = [3], dataType = DT_SFLOAT, pixel = (\<lambda>c. 0) \<rparr>
        [\<lparr> f_filter = [], f_origin = - 1, f_symmetry = ''general'', f_isComplex = False \<rparr>]
        [] True)
   = Inr ([18446744073709551615], [False])"
  by (simp add: SeparableConvolution_args_def InternOneDimensionalFilter_def border_of_def
        uint_sub_def IsMeaninglessFilter_def Let_def)

subsection \<open>Symmetric line filters\<close>

lemma mac_general_acc: "mac_general fs buf p acc = acc + mac_general fs buf p 0"
proof (induction fs arbitrary: p acc)
  case Nil
  show ?case by simp
next
  case (Cons f fs)
  have "mac_general (f # fs) buf p acc = mac_general fs buf (p + 1) (acc + f * buf p)"
    by simp
  also have "\<dots> = (acc + f * buf p) + mac_general fs buf (p + 1) 0"
    by (rule Cons.IH)
  also have "\<dots> = acc + mac_general fs buf (p + 1) (0 + f * buf p)"
    using Cons.IH [of "p + 1" "0 + f * buf p"] by (simp add: add.assoc)
  finally show ?case by simp
qed

lemma mac_general_append:
  "mac_general (xs @ ys) buf p acc = mac_general ys buf (p + int (length xs)) (mac_general xs buf p acc)"
  by (induction xs arbitrary: p acc) (simp_all add: add.assoc)

lemma mac_general_uminus: "mac_general (map uminus xs) buf p acc = - mac_general xs buf p (- acc)"
  by (induction xs arbitrary: p acc) simp_all

lemma mac_general_snoc:
  "mac_general (xs @ [f]) buf p 0 = mac_general xs buf p 0 + f * buf (p + int (length xs))"
  by (simp add: mac_general_append)

lemma mac_fold_even:
  "mac_fold g_even t buf l r acc =
     acc + mac_general t buf r 0 + mac_general (rev t) buf (l - int (length t) + 1) 0"
proof (induction t arbitrary: l r acc)
  case Nil
  show ?case by simp
next
  case (Cons f fs)
  have a: "mac_general (f # fs) buf r 0 = f * buf r + mac_general fs buf (r + 1) 0"
    using mac_general_acc [of fs buf "r + 1" "f * buf r"] by simp
  have b: "mac_general (rev (f # fs)) buf (l - int (length (f # fs)) + 1) 0 =
           mac_general (rev fs) buf (l - 1 - int (length fs) + 1) 0 + f * buf l"
    using mac_general_snoc [of "rev fs" f buf "l - int (length fs)"] by simp
  have "mac_fold g_even (f # fs) buf l r acc =
        mac_fold g_even fs buf (l - 1) (r + 1) (acc + g_even f (buf r) (buf l))"
    by simp
  also have "\<dots> = (acc + g_even f (buf r) (buf l)) + mac_general fs buf (r + 1) 0
                   + mac_general (rev fs) buf (l - 1 - int (length fs) + 1) 0"
    by (rule Cons.IH)
  finally have c: "mac_fold g_even (f # fs) buf l r acc =
      (acc + g_even f (buf r) (buf l)) + mac_general fs buf (r + 1) 0
        + mac_general (rev fs) buf (l - 1 - int (length fs) + 1) 0" .
  have d: "g_even f (buf r) (buf l) = f * buf r + f * buf l"
    by (simp add: g_even_def algebra_simps)
  show ?case
    unfolding a b c d by (simp add: algebra_simps)
qed

lemma mac_fold_odd:
  "mac_fold g_odd t buf l r acc =
     acc + mac_general t buf r 0 - mac_general (rev t) buf (l - int (length t) + 1) 0"
proof (induction t arbitrary: l r acc)
  case Nil
  show ?case by simp
next
  case (Cons f fs)
  have a: "mac_general (f # fs) buf r 0 = f * buf r + mac_general fs buf (r + 1) 0"
    using mac_general_acc [of fs buf "r + 1" "f * buf r"] by simp
  have b: "mac_general (rev (f # fs)) buf (l - int (length (f # fs)) + 1) 0 =
           mac_general (rev fs) buf (l - 1 - int (length fs) + 1) 0 + f * buf l"
    using mac_general_snoc [of "rev fs" f buf "l - int (length fs)"] by simp
  have "mac_fold g_odd (f # fs) buf l r acc =
        mac_fold g_odd fs buf (l - 1) (r + 1) (acc + g_odd f (buf r) (buf l))"
    by simp
  also have "\<dots> = (acc + g_odd f (buf r) (buf l)) + mac_general fs buf (r + 1) 0
                   - mac_general (rev fs) buf (l - 1 - int (length fs) + 1) 0"
    by (rule Cons.IH)
  finally have c: "mac_fold g_odd (f # fs) buf l r acc =
      (acc + g_odd f (buf r) (buf l)) + mac_general fs buf (r + 1) 0
        - mac_general (rev fs) buf (l - 1 - int (length fs) + 1) 0" .
  have d: "g_odd f (buf r) (buf l) = f * buf r - f * buf l"
    by (simp add: g_odd_def algebra_simps)
  show ?case
    unfolding a b c d by (simp add: algebra_simps)
qed

text \<open>
  One output sample of the symmetric cases against the \<^verbatim>\<open>GENERAL\<close> case on the
  whole reversed filter.
\<close>

lemma sample_even:
  "Filter_sample GENERAL (rev t @ c # t) buf p = Filter_sample EVEN (c # t) buf (p + int (length t))"
proof -
  have "mac_general (rev t @ c # t) buf p 0 =
        mac_general (rev t) buf p 0 + c * buf (p + int (length t)) + mac_general t buf (p + int (length t) + 1) 0"
    using mac_general_acc [of t buf "p + int (length t) + 1" "mac_general (rev t) buf p 0 + c * buf (p + int (length t))"]
    by (simp add: mac_general_append)
  then show ?thesis
    by (simp add: Filter_sample_def mac_fold_even)
qed

lemma sample_odd:
  "Filter_sample GENERAL (map uminus (rev t) @ c # t) buf p = Filter_sample ODD (c # t) buf (p + int (length t))"
proof -
  have "mac_general (map uminus (rev t) @ c # t) buf p 0 =
        - mac_general (rev t) buf p 0 + c * buf (p + int (length t)) + mac_general t buf (p + int (length t) + 1) 0"
    using mac_general_acc [of t buf "p + int (length t) + 1" "- mac_general (rev t) buf p 0 + c * buf (p + int (length t))"]
    by (simp add: mac_general_append mac_general_uminus)
  then show ?thesis
    by (simp add: Filter_sample_def mac_fold_odd)
qed

lemma sample_d_even:
  "Filter_sample D_EVEN t buf (p + int (length t) - 1) = Filter_sample GENERAL (rev t @ t) buf (p - 1)"
proof -
  have "mac_general (rev t @ t) buf (p - 1) 0 =
        mac_general (rev t) buf (p - 1) 0 + mac_general t buf (p - 1 + int (length t)) 0"
    using mac_general_acc [of t buf "p - 1 + int (length t)" "mac_general (rev t) buf (p - 1) 0"]
    by (simp add: mac_general_append)
  then show ?thesis
    by (simp add: Filter_sample_def mac_fold_even algebra_simps)
qed


lemma sample_d_odd:
  "Filter_sample D_ODD t buf (p + int (length t) - 1) = Filter_sample GENERAL (map uminus (rev t) @ t) buf (p - 1)"
proof -
  have "mac_general (map uminus (rev t) @ t) buf (p - 1) 0 =
        - mac_general (rev t) buf (p - 1) 0 + mac_general t buf (p - 1 + int (length t)) 0"
    using mac_general_acc [of t buf "p - 1 + int (length t)" "- mac_general (rev t) buf (p - 1) 0"]
    by (simp add: mac_general_append mac_general_uminus)
  then show ?thesis
    by (simp add: Filter_sample_def mac_fold_odd algebra_simps)
qed

lemma intern_real:
  assumes "h \<noteq> []" and "symmetry_and_size s uc (length h) = Inr (smt, sz)"
  shows "InternOneDimensionalFilter \<lparr> f_filter = h, f_origin = og, f_symmetry = s, f_isComplex = False \<rparr> ud uc =
     (case origin_index og sz of
        Inl e \<Rightarrow> Inl e
      | Inr k \<Rightarrow> Inr \<lparr> filterData = rev (map complex_of_real h), fsize = sz, dataSize = length h,
                       origin = sz - k - 1, isDouble = ud, isComplex = uc, symmetry = smt \<rparr>)"
  using assms
  by (simp add: InternOneDimensionalFilter_def CopyReverseData_def Let_def split: sum.splits)

lemma rev_split:
  assumes "h \<noteq> []"
  obtains c t where "rev (map complex_of_real h) = c # t"
    and "map complex_of_real (butlast h) = rev t" and "length t = length h - 1"
proof -
  from assms obtain c t where ct: "rev (map complex_of_real h) = c # t"
    by (cases "rev (map complex_of_real h)") auto
  have "map complex_of_real (butlast h) = butlast (rev (rev (map complex_of_real h)))"
    by (simp add: map_butlast)
  also have "\<dots> = rev t"
    unfolding ct by simp
  finally have b: "map complex_of_real (butlast h) = rev t" .
  have "length (c # t) = length h"
    using arg_cong [OF ct, of length] by simp
  then have "length t = length h - 1" by simp
  with ct b show thesis by (rule that)
qed

text \<open>
  The part of claim C2 on odd-sized filters holds exactly, for every buffer (so for
  every boundary condition), every line length and every origin: the full filter with
  the tag "general" and the stored half with the tag "even" (or "odd") fail alike
  or give the same output line.
\<close>

lemma filter_even_eq_general:
  assumes "h \<noteq> []"
  shows "map_sum id (\<lambda>fd. Filter fd buf len)
           (InternOneDimensionalFilter \<lparr> f_filter = mirror_even h, f_origin = og, f_symmetry = ''general'', f_isComplex = False \<rparr> ud uc)
       = map_sum id (\<lambda>fd. Filter fd buf len)
           (InternOneDimensionalFilter \<lparr> f_filter = h, f_origin = og, f_symmetry = ''even'', f_isComplex = False \<rparr> ud uc)"
proof -
  let ?sz = "length h + (length h - 1)"
  obtain c t where ct: "rev (map complex_of_real h) = c # t"
    and bt: "map complex_of_real (butlast h) = rev t" and lt: "length t = length h - 1"
    using rev_split [OF assms] by blast
  have g: "symmetry_and_size ''general'' uc (length (mirror_even h)) = Inr (GENERAL, ?sz)"
    by (simp add: symmetry_and_size_def mirror_even_def)
  have e: "symmetry_and_size ''even'' uc (length h) = Inr (EVEN, ?sz)"
    by (simp add: symmetry_and_size_def)
  have ne: "mirror_even h \<noteq> []"
    using assms by (simp add: mirror_even_def)
  have "rev (map complex_of_real (mirror_even h)) =
        map complex_of_real (butlast h) @ rev (map complex_of_real h)"
    by (simp add: mirror_even_def rev_map)
  then have full: "rev (map complex_of_real (mirror_even h)) = rev t @ c # t"
    by (simp only: bt ct)
  show ?thesis
  proof (cases "origin_index og ?sz")
    case (Inl err)
    then show ?thesis
      by (simp add: intern_real [OF ne g] intern_real [OF assms e])
  next
    case (Inr k)
    have G: "InternOneDimensionalFilter \<lparr> f_filter = mirror_even h, f_origin = og, f_symmetry = ''general'', f_isComplex = False \<rparr> ud uc
        = Inr \<lparr> filterData = rev t @ c # t, fsize = ?sz, dataSize = length (mirror_even h),
                 origin = ?sz - k - 1, isDouble = ud, isComplex = uc, symmetry = GENERAL \<rparr>"
      unfolding intern_real [OF ne g] Inr full by simp
    have E: "InternOneDimensionalFilter \<lparr> f_filter = h, f_origin = og, f_symmetry = ''even'', f_isComplex = False \<rparr> ud uc
        = Inr \<lparr> filterData = c # t, fsize = ?sz, dataSize = length h,
                 origin = ?sz - k - 1, isDouble = ud, isComplex = uc, symmetry = EVEN \<rparr>"
      unfolding intern_real [OF assms e] Inr ct by simp
    have "Filter_sample GENERAL (rev t @ c # t) buf (- int (?sz - k - 1) + int ii)
        = Filter_sample EVEN (c # t) buf (- int (?sz - k - 1) + (int (length h) - 1) + int ii)" for ii
      using sample_even [of t c buf "- int (?sz - k - 1) + int ii"] lt assms
      by (simp add: algebra_simps of_nat_diff Suc_leI)
    then show ?thesis
      unfolding G E by (simp add: Filter_def in_start_def)
  qed
qed


lemma filter_odd_eq_general:
  assumes "h \<noteq> []"
  shows "map_sum id (\<lambda>fd. Filter fd buf len)
           (InternOneDimensionalFilter \<lparr> f_filter = mirror_odd h, f_origin = og, f_symmetry = ''general'', f_isComplex = False \<rparr> ud uc)
       = map_sum id (\<lambda>fd. Filter fd buf len)
           (InternOneDimensionalFilter \<lparr> f_filter = h, f_origin = og, f_symmetry = ''odd'', f_isComplex = False \<rparr> ud uc)"
proof -
  let ?sz = "length h + (length h - 1)"
  obtain c t where ct: "rev (map complex_of_real h) = c # t"
    and bt: "map complex_of_real (butlast h) = rev t" and lt: "length t = length h - 1"
    using rev_split [OF assms] by blast
  have g: "symmetry_and_size ''general'' uc (length (mirror_odd h)) = Inr (GENERAL, ?sz)"
    by (simp add: symmetry_and_size_def mirror_odd_def)
  have e: "symmetry_and_size ''odd'' uc (length h) = Inr (ODD, ?sz)"
    by (simp add: symmetry_and_size_def)
  have ne: "mirror_odd h \<noteq> []"
    using assms by (simp add: mirror_odd_def)
  have "rev (map complex_of_real (mirror_odd h)) =
        map uminus (map complex_of_real (butlast h)) @ rev (map complex_of_real h)"
    by (simp add: mirror_odd_def rev_map comp_def)
  then have full: "rev (map complex_of_real (mirror_odd h)) = map uminus (rev t) @ c # t"
    by (simp only: bt ct)
  show ?thesis
  proof (cases "origin_index og ?sz")
    case (Inl err)
    then show ?thesis
      by (simp add: intern_real [OF ne g] intern_real [OF assms e])
  next
    case (Inr k)
    have G: "InternOneDimensionalFilter \<lparr> f_filter = mirror_odd h, f_origin = og, f_symmetry = ''general'', f_isComplex = False \<rparr> ud uc
        = Inr \<lparr> filterData = map uminus (rev t) @ c # t, fsize = ?sz, dataSize = length (mirror_odd h),
                 origin = ?sz - k - 1, isDouble = ud, isComplex = uc, symmetry = GENERAL \<rparr>"
      unfolding intern_real [OF ne g] Inr full by simp
    have E: "InternOneDimensionalFilter \<lparr> f_filter = h, f_origin = og, f_symmetry = ''odd'', f_isComplex = False \<rparr> ud uc
        = Inr \<lparr> filterData = c # t, fsize = ?sz, dataSize = length h,
                 origin = ?sz - k - 1, isDouble = ud, isComplex = uc, symmetry = ODD \<rparr>"
      unfolding intern_real [OF assms e] Inr ct by simp
    have "Filter_sample GENERAL (map uminus (rev t) @ c # t) buf (- int (?sz - k - 1) + int ii)
        = Filter_sample ODD (c # t) buf (- int (?sz - k - 1) + (int (length h) - 1) + int ii)" for ii
      using sample_odd [of t c buf "- int (?sz - k - 1) + int ii"] lt assms
      by (simp add: algebra_simps of_nat_diff Suc_leI)
    then show ?thesis
      unfolding G E by (simp add: Filter_def in_start_def)
  qed
qed

text \<open>
  The \<^verbatim>\<open>D_EVEN\<close> and \<^verbatim>\<open>D_ODD\<close> cases compute what the \<^verbatim>\<open>GENERAL\<close> case
  computes on the buffer moved by one sample: output \<open>ii\<close> of "d-even" (of "d-odd")
  is output \<open>ii - 1\<close> of the full filter.
\<close>

lemma filter_d_even_shifted:
  assumes "h \<noteq> []"
  shows "map_sum id (\<lambda>fd. Filter fd buf len)
           (InternOneDimensionalFilter \<lparr> f_filter = h, f_origin = og, f_symmetry = ''d-even'', f_isComplex = False \<rparr> ud uc)
       = map_sum id (\<lambda>fd. Filter fd (\<lambda>k. buf (k - 1)) len)
           (InternOneDimensionalFilter \<lparr> f_filter = mirror_d_even h, f_origin = og, f_symmetry = ''general'', f_isComplex = False \<rparr> ud uc)"
proof -
  let ?sz = "length h + length h"
  let ?t = "rev (map complex_of_real h)"
  have g: "symmetry_and_size ''general'' uc (length (mirror_d_even h)) = Inr (GENERAL, ?sz)"
    by (simp add: symmetry_and_size_def mirror_d_even_def)
  have e: "symmetry_and_size ''d-even'' uc (length h) = Inr (D_EVEN, ?sz)"
    by (simp add: symmetry_and_size_def)
  have ne: "mirror_d_even h \<noteq> []"
    using assms by (simp add: mirror_d_even_def)
  have full: "rev (map complex_of_real (mirror_d_even h)) = rev ?t @ ?t"
    by (simp add: mirror_d_even_def rev_map)
  have shift: "mac_general fs (\<lambda>k. buf (k - 1)) p acc = mac_general fs buf (p - 1) acc" for fs p acc
    by (induction fs arbitrary: p acc) simp_all
  show ?thesis
  proof (cases "origin_index og ?sz")
    case (Inl err)
    then show ?thesis
      by (simp add: intern_real [OF ne g] intern_real [OF assms e])
  next
    case (Inr k)
    have G: "InternOneDimensionalFilter \<lparr> f_filter = mirror_d_even h, f_origin = og, f_symmetry = ''general'', f_isComplex = False \<rparr> ud uc
        = Inr \<lparr> filterData = rev ?t @ ?t, fsize = ?sz, dataSize = length (mirror_d_even h),
                 origin = ?sz - k - 1, isDouble = ud, isComplex = uc, symmetry = GENERAL \<rparr>"
      unfolding intern_real [OF ne g] Inr full by simp
    have E: "InternOneDimensionalFilter \<lparr> f_filter = h, f_origin = og, f_symmetry = ''d-even'', f_isComplex = False \<rparr> ud uc
        = Inr \<lparr> filterData = ?t, fsize = ?sz, dataSize = length h,
                 origin = ?sz - k - 1, isDouble = ud, isComplex = uc, symmetry = D_EVEN \<rparr>"
      unfolding intern_real [OF assms e] Inr by simp
    have "Filter_sample D_EVEN ?t buf (- int (?sz - k - 1) + (int (length h) - 1) + int ii)
        = Filter_sample GENERAL (rev ?t @ ?t) (\<lambda>k. buf (k - 1)) (- int (?sz - k - 1) + int ii)" for ii
      using sample_d_even [of ?t buf "- int (?sz - k - 1) + int ii"]
      by (simp add: algebra_simps Filter_sample_def shift)
    then show ?thesis
      unfolding G E by (simp add: Filter_def in_start_def)
  qed
qed

lemma filter_d_odd_shifted:
  assumes "h \<noteq> []"
  shows "map_sum id (\<lambda>fd. Filter fd buf len)
           (InternOneDimensionalFilter \<lparr> f_filter = h, f_origin = og, f_symmetry = ''d-odd'', f_isComplex = False \<rparr> ud uc)
       = map_sum id (\<lambda>fd. Filter fd (\<lambda>k. buf (k - 1)) len)
           (InternOneDimensionalFilter \<lparr> f_filter = mirror_d_odd h, f_origin = og, f_symmetry = ''general'', f_isComplex = False \<rparr> ud uc)"
proof -
  let ?sz = "length h + length h"
  let ?t = "rev (map complex_of_real h)"
  have g: "symmetry_and_size ''general'' uc (length (mirror_d_odd h)) = Inr (GENERAL, ?sz)"
    by (simp add: symmetry_and_size_def mirror_d_odd_def)
  have e: "symmetry_and_size ''d-odd'' uc (length h) = Inr (D_ODD, ?sz)"
    by (simp add: symmetry_and_size_def)
  have ne: "mirror_d_odd h \<noteq> []"
    using assms by (simp add: mirror_d_odd_def)
  have full: "rev (map complex_of_real (mirror_d_odd h)) = map uminus (rev ?t) @ ?t"
    by (simp add: mirror_d_odd_def rev_map comp_def)
  have shift: "mac_general fs (\<lambda>k. buf (k - 1)) p acc = mac_general fs buf (p - 1) acc" for fs p acc
    by (induction fs arbitrary: p acc) simp_all
  show ?thesis
  proof (cases "origin_index og ?sz")
    case (Inl err)
    then show ?thesis
      by (simp add: intern_real [OF ne g] intern_real [OF assms e])
  next
    case (Inr k)
    have G: "InternOneDimensionalFilter \<lparr> f_filter = mirror_d_odd h, f_origin = og, f_symmetry = ''general'', f_isComplex = False \<rparr> ud uc
        = Inr \<lparr> filterData = map uminus (rev ?t) @ ?t, fsize = ?sz, dataSize = length (mirror_d_odd h),
                 origin = ?sz - k - 1, isDouble = ud, isComplex = uc, symmetry = GENERAL \<rparr>"
      unfolding intern_real [OF ne g] Inr full by simp
    have E: "InternOneDimensionalFilter \<lparr> f_filter = h, f_origin = og, f_symmetry = ''d-odd'', f_isComplex = False \<rparr> ud uc
        = Inr \<lparr> filterData = ?t, fsize = ?sz, dataSize = length h,
                 origin = ?sz - k - 1, isDouble = ud, isComplex = uc, symmetry = D_ODD \<rparr>"
      unfolding intern_real [OF assms e] Inr by simp
    have "Filter_sample D_ODD ?t buf (- int (?sz - k - 1) + (int (length h) - 1) + int ii)
        = Filter_sample GENERAL (map uminus (rev ?t) @ ?t) (\<lambda>k. buf (k - 1)) (- int (?sz - k - 1) + int ii)" for ii
      using sample_d_odd [of ?t buf "- int (?sz - k - 1) + int ii"]
      by (simp add: algebra_simps Filter_sample_def shift)
    then show ?thesis
      unfolding G E by (simp add: Filter_def in_start_def)
  qed
qed

text \<open>
  Claim C2 on even-sized filters, at the line 1, 2, 4 extended with zeros. The full
  filter 1, 1 with the tag "general" gives 3, 6, 4; the stored half 1 with the tag
  "d-even" gives 1, 3, 6. The full filter 1, -1 gives 1, 2, -4; the stored half 1
  with the tag "d-odd" gives 1, 1, 2. The doctest "comparing general to d-even"
  (lines 758-786) compares only the means of the two outputs under the periodic
  boundary condition, which a shift by one sample does not change.
\<close>

theorem d_even_d_odd_differ_from_general:
  "map_sum id (\<lambda>fd. Filter fd (extend_line ADD_ZEROS [1, 2, 4]) 3)
     (InternOneDimensionalFilter
        \<lparr> f_filter = [1, 1], f_origin = - 1, f_symmetry = ''general'', f_isComplex = False \<rparr> True False)
     = Inr [3, 6, 4]
   \<and> map_sum id (\<lambda>fd. Filter fd (extend_line ADD_ZEROS [1, 2, 4]) 3)
     (InternOneDimensionalFilter
        \<lparr> f_filter = [1], f_origin = - 1, f_symmetry = ''d-even'', f_isComplex = False \<rparr> True False)
     = Inr [1, 3, 6]
   \<and> map_sum id (\<lambda>fd. Filter fd (extend_line ADD_ZEROS [1, 2, 4]) 3)
     (InternOneDimensionalFilter
        \<lparr> f_filter = [1, - 1], f_origin = - 1, f_symmetry = ''general'', f_isComplex = False \<rparr> True False)
     = Inr [1, 2, - 4]
   \<and> map_sum id (\<lambda>fd. Filter fd (extend_line ADD_ZEROS [1, 2, 4]) 3)
     (InternOneDimensionalFilter
        \<lparr> f_filter = [1], f_origin = - 1, f_symmetry = ''d-odd'', f_isComplex = False \<rparr> True False)
     = Inr [1, 1, 2]"
  by (simp add: InternOneDimensionalFilter_def symmetry_and_size_def origin_index_def
        CopyReverseData_def Filter_def Filter_sample_def in_start_def extend_line_def
        g_even_def g_odd_def upt_rec Let_def)

text \<open>
  The same through \<^verbatim>\<open>SeparableConvolution\<close>, on the image of the three pixels 1, 2, 4
  with the boundary condition "add zeros".
\<close>

lemma d_even_image_differs:
  "map_sum id (\<lambda>im. map (\<lambda>x. pixel im [x]) [0, 1, 2])
     (SeparableConvolution
        \<lparr> forged = True, sizes = [3], dataType = DT_SFLOAT, pixel = (\<lambda>c. [1, 2, 4] ! (c ! 0)) \<rparr>
        [\<lparr> f_filter = [1, 1], f_origin = - 1, f_symmetry = ''general'', f_isComplex = False \<rparr>]
        ADD_ZEROS [] True) = Inr [3, 6, 4]
   \<and> map_sum id (\<lambda>im. map (\<lambda>x. pixel im [x]) [0, 1, 2])
     (SeparableConvolution
        \<lparr> forged = True, sizes = [3], dataType = DT_SFLOAT, pixel = (\<lambda>c. [1, 2, 4] ! (c ! 0)) \<rparr>
        [\<lparr> f_filter = [1], f_origin = - 1, f_symmetry = ''d-even'', f_isComplex = False \<rparr>]
        ADD_ZEROS [] True) = Inr [1, 3, 6]"
  by (simp add: SeparableConvolution_def SeparableConvolution_args_def
        InternOneDimensionalFilter_def symmetry_and_size_def origin_index_def Let_def
        IsMeaninglessFilter_def CopyReverseData_def Framework_Separable_def
        Separable_pass_def in_image_def image_line_def extend_line_def Filter_dim_def
        Filter_def Filter_sample_def in_start_def g_even_def upt_rec)

subsection \<open>The internal filters of a filter array\<close>

lemma intern_all_length:
  "intern_all fa ud uc = Inr fds \<Longrightarrow> length fds = length fa"
  by (induction fa arbitrary: fds) (auto split: sum.splits)

lemma intern_all_nth:
  "intern_all fa ud uc = Inr fds \<Longrightarrow> i < length fa \<Longrightarrow>
   InternOneDimensionalFilter (fa ! i) ud uc = Inr (fds ! i)"
proof (induction fa arbitrary: fds i)
  case Nil
  then show ?case by simp
next
  case (Cons f fa)
  then show ?case
    by (cases i) (auto split: sum.splits)
qed

subsection \<open>Filters that do nothing\<close>

lemma intern_empty:
  assumes "InternOneDimensionalFilter f ud uc = Inr fd" and "f_filter f = []"
  shows "IsMeaninglessFilter fd"
  using assms
  by (auto simp: InternOneDimensionalFilter_def IsMeaninglessFilter_def Let_def split: if_splits)

lemma intern_single_unit_tap:
  assumes "InternOneDimensionalFilter f ud uc = Inr fd" and "single_unit_tap f"
  shows "fsize fd = 1" and "filterData fd = [1]" and "origin fd = 0" and "dataSize fd = 1"
    and "symmetry fd \<in> {GENERAL, EVEN, ODD, CONJ}"
  using assms
  by (auto simp: InternOneDimensionalFilter_def single_unit_tap_def symmetry_and_size_def
        origin_index_def CopyReverseData_def Let_def one_complex.code
        split: if_splits)

text \<open>
  A filter of one tap equal to 1 would copy the line if it were run: skipping it does
  not change the output.
\<close>

lemma unit_tap_is_identity:
  assumes "fsize fd = 1" and "filterData fd = [1]" and "origin fd = 0" and "dataSize fd = 1"
    and "symmetry fd \<in> {GENERAL, EVEN, ODD, CONJ}"
  shows "Filter fd buf len = map (\<lambda>ii. buf (int ii)) [0..<len]"
  using assms by (auto simp: Filter_def Filter_sample_def in_start_def)

lemma foldl_no_process:
  "\<forall>d \<in> set ds. \<not> process ! d \<Longrightarrow>
   foldl (\<lambda>im d. if process ! d then g im d else im) img ds = img"
  by (induction ds arbitrary: img) simp_all

lemma Framework_Separable_nothing:
  assumes "\<forall>d < length (sizes img). \<not> process ! d"
  shows "Framework_Separable img process bc lineFilter = img"
  unfolding Framework_Separable_def
  using assms by (intro foldl_no_process) simp

text \<open>What a successful run of lines 310-378 has established.\<close>

lemma args_structure:
  assumes "SeparableConvolution_args img fa process ud = Inr args"
  shows "forged img" and "sizes img \<noteq> []"
    and "length fa = 1 \<or> length fa = length (sizes img)"
    and "intern_all fa ud (list_ex f_isComplex fa) = Inr (sa_filterData args)"
    and "length (sa_filterData args) = 1 \<Longrightarrow> IsMeaninglessFilter (sa_filterData args ! 0) \<Longrightarrow>
           sa_process args = replicate (length (sizes img)) False"
    and "length (sa_filterData args) \<noteq> 1 \<Longrightarrow>
           sa_process args =
             map (\<lambda>ii. if sizes img ! ii \<le> 1 \<or> IsMeaninglessFilter (sa_filterData args ! ii)
                        then False
                        else (if process = [] then replicate (length (sizes img)) True else process) ! ii)
               [0..<length (sizes img)]"
  using assms
  by (auto simp: SeparableConvolution_args_def Let_def split: if_splits sum.splits)

text \<open>
  Claim C5. Let the call get as far as the framework, and let filter \<open>ii\<close> of the
  filter array have no samples or be a single tap equal to 1. If the array holds one
  filter (shared by all dimensions), every dimension is marked as not processed and
  the output is the input. If it holds one filter per dimension, dimension \<open>ii\<close> is
  marked as not processed; and whenever no dimension is left to process, the output
  is the input. Samples are exact values here, so "bit-for-bit" reads as equality of
  every sample.
\<close>

theorem meaningless_filter_skipped:
  assumes "SeparableConvolution_args img fa process ud = Inr args"
      and "ii < length fa"
      and "f_filter (fa ! ii) = [] \<or> single_unit_tap (fa ! ii)"
  shows "(length fa = 1 \<longrightarrow>
            sa_process args = replicate (length (sizes img)) False \<and>
            SeparableConvolution img fa bc process ud = Inr img)
       \<and> (length fa \<noteq> 1 \<longrightarrow> \<not> sa_process args ! ii)
       \<and> ((\<forall>d < length (sizes img). \<not> sa_process args ! d) \<longrightarrow>
            SeparableConvolution img fa bc process ud = Inr img)"
proof -
  note st = args_structure [OF assms(1)]
  note ia = intern_all_length [OF st(4)] intern_all_nth [OF st(4)]
  have m: "IsMeaninglessFilter (sa_filterData args ! ii)"
  proof -
    have i: "InternOneDimensionalFilter (fa ! ii) ud (list_ex f_isComplex fa) = Inr (sa_filterData args ! ii)"
      using ia(2) assms(2) by simp
    from assms(3) show ?thesis
    proof
      assume "f_filter (fa ! ii) = []"
      then show ?thesis using intern_empty [OF i] by simp
    next
      assume "single_unit_tap (fa ! ii)"
      then show ?thesis
        using intern_single_unit_tap(1,2) [OF i] by (simp add: IsMeaninglessFilter_def)
    qed
  qed
  have all: "SeparableConvolution img fa bc process ud = Inr img"
    if "\<forall>d < length (sizes img). \<not> sa_process args ! d"
    using that by (simp add: SeparableConvolution_def assms(1) Framework_Separable_nothing)
  have shared: "sa_process args = replicate (length (sizes img)) False" if "length fa = 1"
    using that st(5) ia(1) m assms(2) by simp
  have per_dim: "\<not> sa_process args ! ii" if "length fa \<noteq> 1"
  proof -
    have "ii < length (sizes img)" using that st(3) assms(2) by auto
    then show ?thesis using that st(6) ia(1) m by simp
  qed
  show ?thesis
    using shared per_dim all by simp
qed


text \<open>
  A 3 by 2 image with the filters 1 and 1, 2, 1: dimension 0 is skipped, dimension 1 is
  not. A line of 3 pixels with the single tap 1 under the tag "even": the output is
  the input.
\<close>

theorem meaningless_filter_skipped_witness:
  "map_sum id sa_process
     (SeparableConvolution_args
        \<lparr> forged = True, sizes = [3, 2], dataType = DT_SFLOAT, pixel = (\<lambda>c. 7) \<rparr>
        [\<lparr> f_filter = [1], f_origin = - 1, f_symmetry = ''general'', f_isComplex = False \<rparr>,
         \<lparr> f_filter = [1, 2, 1], f_origin = - 1, f_symmetry = ''general'', f_isComplex = False \<rparr>]
        [] True) = Inr [False, True]
   \<and> SeparableConvolution
        \<lparr> forged = True, sizes = [3], dataType = DT_SFLOAT, pixel = (\<lambda>c. 7) \<rparr>
        [\<lparr> f_filter = [1], f_origin = - 1, f_symmetry = ''even'', f_isComplex = False \<rparr>]
        ADD_ZEROS [] True
      = Inr \<lparr> forged = True, sizes = [3], dataType = DT_SFLOAT, pixel = (\<lambda>c. 7) \<rparr>"
proof -
  let ?u = "\<lparr> f_filter = [1], f_origin = - 1, f_symmetry = ''general'', f_isComplex = False \<rparr>"
  let ?e = "\<lparr> f_filter = [1], f_origin = - 1, f_symmetry = ''even'', f_isComplex = False \<rparr>"
  let ?b = "\<lparr> f_filter = [1, 2, 1], f_origin = - 1, f_symmetry = ''general'', f_isComplex = False \<rparr>"
  let ?im2 = "\<lparr> forged = True, sizes = [3, 2], dataType = DT_SFLOAT, pixel = (\<lambda>c. (7::complex)) \<rparr>"
  let ?im1 = "\<lparr> forged = True, sizes = [3], dataType = DT_SFLOAT, pixel = (\<lambda>c. (7::complex)) \<rparr>"
  obtain a2 where a2: "SeparableConvolution_args ?im2 [?u, ?b] [] True = Inr a2"
    by (simp add: SeparableConvolution_args_def InternOneDimensionalFilter_def
          symmetry_and_size_def origin_index_def Let_def)
  obtain a1 where a1: "SeparableConvolution_args ?im1 [?e] [] True = Inr a1"
    by (simp add: SeparableConvolution_args_def InternOneDimensionalFilter_def
          symmetry_and_size_def origin_index_def Let_def)
  have u: "single_unit_tap ?u" and e: "single_unit_tap ?e"
    by (simp_all add: single_unit_tap_def)
  have "\<not> sa_process a2 ! 0"
    using meaningless_filter_skipped [OF a2, of 0 ADD_ZEROS] u by simp
  moreover have "sa_process a2 ! 1"
    using a2
    by (auto simp: SeparableConvolution_args_def InternOneDimensionalFilter_def
          symmetry_and_size_def origin_index_def Let_def IsMeaninglessFilter_def CopyReverseData_def upt_rec)
  moreover have "length (sa_process a2) = 2"
    using a2
    by (auto simp: SeparableConvolution_args_def Let_def split: if_splits sum.splits)
  ultimately have "sa_process a2 = [False, True]"
    by (cases "sa_process a2"; cases "tl (sa_process a2)") auto
  moreover have "SeparableConvolution ?im1 [?e] ADD_ZEROS [] True = Inr ?im1"
    using meaningless_filter_skipped [OF a1, of 0 ADD_ZEROS] e by simp
  ultimately show ?thesis
    using a2 by simp
qed

subsection \<open>The border used on a processed dimension\<close>

lemma Separable_pass_sizes: "sizes (Separable_pass lineFilter bc img d) = sizes img"
  by (simp add: Separable_pass_def)

lemma Framework_Separable_sizes:
  "sizes (Framework_Separable img process bc lineFilter) = sizes img"
proof -
  have "sizes (foldl (\<lambda>im d. if process ! d then Separable_pass lineFilter bc im d else im) img ds)
          = sizes img" for ds
    by (induction ds arbitrary: img) (simp_all add: Separable_pass_sizes)
  then show ?thesis
    by (simp add: Framework_Separable_def)
qed

text \<open>
  Claim C4. Let the call get as far as the framework, and let dimension \<open>ii\<close> be one
  that is processed, with \<open>fd\<close> the filter the line filter uses on it (the single
  filter of the array, or filter \<open>ii\<close>; lines 181-185) and its size below \<open>2 ^ 64\<close> as
  every \<^verbatim>\<open>dip::uint\<close> is. Then the filter has at least one tap, its origin is one of
  its taps, and the border entry of the dimension is the larger of origin and size
  minus origin minus 1, both for the origin as the caller counts it and for the origin
  as it is stored for the reversed filter. The output has the sizes of the input, and
  so its number of pixels. Images are scalar here (the framework is run with the
  option \<^verbatim>\<open>AsScalarImage\<close>); the sizes of the output rest on the framework as
  modelled from the spec.
\<close>

theorem border_of_processed_dimension:
  assumes "SeparableConvolution_args img fa process ud = Inr args"
      and "ii < length (sizes img)" and "sa_process args ! ii"
      and "fd = sa_filterData args ! (if length (sa_filterData args) = 1 then 0 else ii)"
      and "fsize fd < 2 ^ 64"
  shows "fsize fd \<noteq> 0 \<and> tap_origin fd < fsize fd \<and> origin fd < fsize fd
       \<and> sa_border args ! ii = max (tap_origin fd) (fsize fd - tap_origin fd - 1)
       \<and> sa_border args ! ii = max (origin fd) (fsize fd - origin fd - 1)
       \<and> map_sum id sizes (SeparableConvolution img fa bc process ud) = Inr (sizes img)
       \<and> map_sum id NumberOfPixels (SeparableConvolution img fa bc process ud)
            = Inr (NumberOfPixels img)"
proof -
  let ?n = "length (sizes img)"
  let ?fds = "sa_filterData args"
  let ?k = "if length ?fds = 1 then 0 else ii"
  note st = args_structure [OF assms(1)]
  have len: "length ?fds = length fa"
    by (rule intern_all_length [OF st(4)])
  have k: "?k < length fa"
    using st(3) assms(2) len by auto
  have i: "InternOneDimensionalFilter (fa ! ?k) ud (list_ex f_isComplex fa) = Inr fd"
    using intern_all_nth [OF st(4) k] assms(4) by simp
  have b: "sa_border args ! ii = border_of fd"
    using assms(1,2,4)
    by (auto simp: SeparableConvolution_args_def Let_def split: if_splits sum.splits)
  have nm: "\<not> IsMeaninglessFilter fd"
  proof (cases "length ?fds = 1")
    case True
    show ?thesis
    proof
      assume "IsMeaninglessFilter fd"
      then have "sa_process args = replicate ?n False"
        using st(5) True assms(4) by simp
      then show False using assms(2,3) by simp
    qed
  next
    case False
    then show ?thesis
      using st(6) assms(2,3,4) by (auto split: if_splits)
  qed
  then have ne: "fsize fd \<noteq> 0"
    by (simp add: IsMeaninglessFilter_def)
  note lt = intern_origin_lt [OF i ne]
  have b1: "sa_border args ! ii = max (tap_origin fd) (fsize fd - tap_origin fd - 1)"
    using border_of_nonempty [OF i ne assms(5)] b by simp
  have "uint_sub (fsize fd) (origin fd) = fsize fd - origin fd"
    using lt(1) assms(5) by (simp add: uint_sub_le)
  moreover have "uint_sub (fsize fd - origin fd) 1 = fsize fd - origin fd - 1"
    using lt(1) assms(5) by (intro uint_sub_le) auto
  ultimately have "border_of fd = max (origin fd) (fsize fd - origin fd - 1)"
    by (simp add: border_of_def Let_def)
  then have b2: "sa_border args ! ii = max (origin fd) (fsize fd - origin fd - 1)"
    using b by simp
  have sz: "map_sum id sizes (SeparableConvolution img fa bc process ud) = Inr (sizes img)"
    by (simp add: SeparableConvolution_def assms(1) Framework_Separable_sizes)
  then have np: "map_sum id NumberOfPixels (SeparableConvolution img fa bc process ud)
            = Inr (NumberOfPixels img)"
    by (simp add: SeparableConvolution_def assms(1) NumberOfPixels_def Framework_Separable_sizes)
  show ?thesis
    using ne lt(1,2) b1 b2 sz np by simp
qed

text \<open>
  A 3 by 2 image with the filters 1 and 1, 2, 1 (origin 0 on the second): dimension 1 is
  processed, its filter has size 3 and the caller's origin 0, and its border is 2.
\<close>

theorem border_of_processed_dimension_witness:
  "map_sum id (\<lambda>args. (sa_process args ! 1, sa_border args ! 1,
                        fsize (sa_filterData args ! 1), tap_origin (sa_filterData args ! 1)))
     (SeparableConvolution_args
        \<lparr> forged = True, sizes = [3, 2], dataType = DT_SFLOAT, pixel = (\<lambda>c. 7) \<rparr>
        [\<lparr> f_filter = [1], f_origin = - 1, f_symmetry = ''general'', f_isComplex = False \<rparr>,
         \<lparr> f_filter = [1, 2, 1], f_origin = 0, f_symmetry = ''general'', f_isComplex = False \<rparr>]
        [] True) = Inr (True, 2, 3, 0)
   \<and> map_sum id sizes
     (SeparableConvolution
        \<lparr> forged = True, sizes = [3, 2], dataType = DT_SFLOAT, pixel = (\<lambda>c. 7) \<rparr>
        [\<lparr> f_filter = [1], f_origin = - 1, f_symmetry = ''general'', f_isComplex = False \<rparr>,
         \<lparr> f_filter = [1, 2, 1], f_origin = 0, f_symmetry = ''general'', f_isComplex = False \<rparr>]
        ADD_ZEROS [] True) = Inr [3, 2]"
proof -
  let ?u = "\<lparr> f_filter = [1], f_origin = - 1, f_symmetry = ''general'', f_isComplex = False \<rparr>"
  let ?b = "\<lparr> f_filter = [1, 2, 1], f_origin = 0, f_symmetry = ''general'', f_isComplex = False \<rparr>"
  let ?im = "\<lparr> forged = True, sizes = [3, 2], dataType = DT_SFLOAT, pixel = (\<lambda>c. (7::complex)) \<rparr>"
  obtain a where a: "SeparableConvolution_args ?im [?u, ?b] [] True = Inr a"
    by (simp add: SeparableConvolution_args_def InternOneDimensionalFilter_def
          symmetry_and_size_def origin_index_def Let_def)
  have ev: "sa_process a ! 1" "fsize (sa_filterData a ! 1) = 3" "tap_origin (sa_filterData a ! 1) = 0"
           "length (sa_filterData a) \<noteq> 1"
    using a
    by (auto simp: SeparableConvolution_args_def InternOneDimensionalFilter_def
          symmetry_and_size_def origin_index_def Let_def IsMeaninglessFilter_def
          CopyReverseData_def tap_origin_def upt_rec)
  have fd: "sa_filterData a ! 1 = sa_filterData a ! (if length (sa_filterData a) = 1 then 0 else 1)"
    using ev(4) by simp
  have ii: "1 < length (sizes ?im)" and lt: "fsize (sa_filterData a ! 1) < 2 ^ 64"
    using ev(2) by simp_all
  from border_of_processed_dimension [OF a ii ev(1) fd lt, of ADD_ZEROS]
  have "sa_border a ! 1 = 2"
    and "map_sum id sizes (SeparableConvolution ?im [?u, ?b] ADD_ZEROS [] True) = Inr [3, 2]"
    using ev(2,3) by simp_all
  then show ?thesis
    using a ev by simp
qed

subsection \<open>Dimensions of size 1\<close>

lemma list_ex_update:
  "i < length xs \<Longrightarrow> P y = P (xs ! i) \<Longrightarrow> list_ex P (xs[i := y]) = list_ex P xs"
  by (induction xs arbitrary: i) (auto split: nat.splits)

lemma Separable_pass_cong:
  assumes "\<And>buf len. lf d buf len = lf' d buf len"
  shows "Separable_pass lf bc im d = Separable_pass lf' bc im d"
proof -
  have "lf d = lf' d"
    by (intro ext) (rule assms)
  then show ?thesis
    by (simp add: Separable_pass_def cong: if_cong)
qed

text \<open>
  When the filter array holds more than one filter (so the image has at least two
  dimensions and lines 373-377 run), a dimension \<open>ii\<close> of size at most 1 is marked as
  not processed, and replacing its filter by any filter \<open>g\<close> that the constructor
  accepts and that is complex exactly when the replaced one is leaves the output
  unchanged.
\<close>

lemma singleton_dimension_skipped:
  assumes "SeparableConvolution_args img fa process ud = Inr args"
      and "SeparableConvolution_args img (fa[ii := g]) process ud = Inr args'"
      and "f_isComplex g = f_isComplex (fa ! ii)"
      and "length fa \<noteq> 1" and "ii < length (sizes img)" and "sizes img ! ii \<le> 1"
  shows "\<not> sa_process args ! ii \<and>
         SeparableConvolution img (fa[ii := g]) bc process ud = SeparableConvolution img fa bc process ud"
proof -
  let ?n = "length (sizes img)"
  let ?fds = "sa_filterData args" and ?fds' = "sa_filterData args'"
  let ?p1 = "if process = [] then replicate ?n True else process"
  note st = args_structure [OF assms(1)]
  note st' = args_structure [OF assms(2)]
  have n: "length fa = ?n"
    using st(3) assms(4) by simp
  have uc: "list_ex f_isComplex (fa[ii := g]) = list_ex f_isComplex fa"
    using assms(3,5) n by (simp add: list_ex_update)
  have len: "length ?fds = ?n" "length ?fds' = ?n"
    using intern_all_length [OF st(4)] intern_all_length [OF st'(4)] n by simp_all
  have same: "?fds' ! j = ?fds ! j" if "j < ?n" "j \<noteq> ii" for j
  proof -
    have "InternOneDimensionalFilter (fa ! j) ud (list_ex f_isComplex fa) = Inr (?fds ! j)"
      using intern_all_nth [OF st(4)] that n by simp
    moreover have "InternOneDimensionalFilter (fa[ii := g] ! j) ud (list_ex f_isComplex fa) = Inr (?fds' ! j)"
      using intern_all_nth [OF st'(4), of j] that n uc by simp
    ultimately show ?thesis using that by simp
  qed
  have p: "sa_process args =
             map (\<lambda>j. if sizes img ! j \<le> 1 \<or> IsMeaninglessFilter (?fds ! j) then False else ?p1 ! j) [0..<?n]"
    using st(6) len assms(4) n by simp
  have p': "sa_process args' =
             map (\<lambda>j. if sizes img ! j \<le> 1 \<or> IsMeaninglessFilter (?fds' ! j) then False else ?p1 ! j) [0..<?n]"
    using st'(6) len assms(4) n by simp
  have skip: "\<not> sa_process args ! ii"
    unfolding p using assms(5,6) by simp
  have "(if sizes img ! j \<le> 1 \<or> IsMeaninglessFilter (?fds' ! j) then False else ?p1 ! j)
      = (if sizes img ! j \<le> 1 \<or> IsMeaninglessFilter (?fds ! j) then False else ?p1 ! j)"
    if "j < ?n" for j
    using same [OF that] assms(6) by (cases "j = ii") simp_all
  then have peq: "sa_process args' = sa_process args"
    unfolding p p' by (intro map_cong refl) simp
  have gt1: "1 < length ?fds" "1 < length ?fds'"
    using len n assms(4) st(2) by (cases "sizes img"; simp)+
  have line: "Filter_dim ?fds' d buf l = Filter_dim ?fds d buf l" if "d < ?n" "d \<noteq> ii" for d buf l
    using same [OF that] gt1 by (simp add: Filter_dim_def)
  have "Framework_Separable img (sa_process args) bc (Filter_dim ?fds')
      = Framework_Separable img (sa_process args) bc (Filter_dim ?fds)"
    unfolding Framework_Separable_def
  proof (rule foldl_cong [OF refl refl])
    fix im d
    assume "d \<in> set [0..<?n]"
    then have d: "d < ?n" by simp
    show "(if sa_process args ! d then Separable_pass (Filter_dim ?fds') bc im d else im)
        = (if sa_process args ! d then Separable_pass (Filter_dim ?fds) bc im d else im)"
    proof (cases "d = ii")
      case True
      then show ?thesis using skip by simp
    next
      case False
      then show ?thesis
        using Separable_pass_cong [of "Filter_dim ?fds'" d "Filter_dim ?fds" bc im] line [OF d False]
        by simp
    qed
  qed
  then have "SeparableConvolution img (fa[ii := g]) bc process ud = SeparableConvolution img fa bc process ud"
    by (simp add: SeparableConvolution_def assms(1,2) peq)
  with skip show ?thesis by simp
qed


text \<open>
  A 3 by 1 image with the filter 1, 2, 1 on both dimensions: dimension 1 is skipped, and
  the output is the same with the filter 5, 5 (tag "d-odd", origin 0) on dimension 1.
\<close>

lemma singleton_dimension_skipped_example:
  "map_sum id sa_process
     (SeparableConvolution_args
        \<lparr> forged = True, sizes = [3, 1], dataType = DT_SFLOAT, pixel = (\<lambda>c. 7) \<rparr>
        [\<lparr> f_filter = [1, 2, 1], f_origin = - 1, f_symmetry = ''general'', f_isComplex = False \<rparr>,
         \<lparr> f_filter = [1, 2, 1], f_origin = - 1, f_symmetry = ''general'', f_isComplex = False \<rparr>]
        [] True) = Inr [True, False]
   \<and> SeparableConvolution
        \<lparr> forged = True, sizes = [3, 1], dataType = DT_SFLOAT, pixel = (\<lambda>c. 7) \<rparr>
        [\<lparr> f_filter = [1, 2, 1], f_origin = - 1, f_symmetry = ''general'', f_isComplex = False \<rparr>,
         \<lparr> f_filter = [5, 5], f_origin = 0, f_symmetry = ''d-odd'', f_isComplex = False \<rparr>]
        ADD_ZEROS [] True
     = SeparableConvolution
        \<lparr> forged = True, sizes = [3, 1], dataType = DT_SFLOAT, pixel = (\<lambda>c. 7) \<rparr>
        [\<lparr> f_filter = [1, 2, 1], f_origin = - 1, f_symmetry = ''general'', f_isComplex = False \<rparr>,
         \<lparr> f_filter = [1, 2, 1], f_origin = - 1, f_symmetry = ''general'', f_isComplex = False \<rparr>]
        ADD_ZEROS [] True"
proof -
  let ?b = "\<lparr> f_filter = [1, 2, 1], f_origin = - 1, f_symmetry = ''general'', f_isComplex = False \<rparr>"
  let ?g = "\<lparr> f_filter = [5, 5], f_origin = 0, f_symmetry = ''d-odd'', f_isComplex = False \<rparr>"
  let ?im = "\<lparr> forged = True, sizes = [3, 1], dataType = DT_SFLOAT, pixel = (\<lambda>c. (7::complex)) \<rparr>"
  obtain a where a: "SeparableConvolution_args ?im [?b, ?b] [] True = Inr a"
    by (simp add: SeparableConvolution_args_def InternOneDimensionalFilter_def
          symmetry_and_size_def origin_index_def Let_def)
  obtain a' where a': "SeparableConvolution_args ?im ([?b, ?b][1 := ?g]) [] True = Inr a'"
    by (simp add: SeparableConvolution_args_def InternOneDimensionalFilter_def
          symmetry_and_size_def origin_index_def Let_def)
  have p: "map_sum id sa_process (SeparableConvolution_args ?im [?b, ?b] [] True) = Inr [True, False]"
    by (simp add: SeparableConvolution_args_def InternOneDimensionalFilter_def
          symmetry_and_size_def origin_index_def Let_def IsMeaninglessFilter_def
          CopyReverseData_def upt_rec)
  show ?thesis
    using singleton_dimension_skipped [OF a a', of ADD_ZEROS] p by simp
qed


text \<open>
  With the framework as modelled from the spec, the processed dimension of the single
  pixel 5 is filtered and the output pixel is 10.
\<close>

lemma singleton_dimension_output_1d:
  "map_sum id (\<lambda>im. pixel im [0])
     (SeparableConvolution
        \<lparr> forged = True, sizes = [1], dataType = DT_SFLOAT, pixel = (\<lambda>c. 5) \<rparr>
        [\<lparr> f_filter = [2], f_origin = - 1, f_symmetry = ''general'', f_isComplex = False \<rparr>]
        ADD_ZEROS [] True) = Inr 10"
  by (simp add: SeparableConvolution_def SeparableConvolution_args_def
        InternOneDimensionalFilter_def symmetry_and_size_def origin_index_def Let_def
        IsMeaninglessFilter_def CopyReverseData_def Framework_Separable_def
        Separable_pass_def in_image_def image_line_def extend_line_def Filter_dim_def
        Filter_def Filter_sample_def in_start_def upt_rec)

subsection \<open>The method "separable"\<close>

lemma Dimensionality_Expand:
  "Dimensionality flt < n \<Longrightarrow> Dimensionality (ExpandDimensionality flt n) = n"
  by (simp add: Dimensionality_def ExpandDimensionality_def)

text \<open>
  Claim C7. For forged images and a kernel with no more dimensions than the input, the
  method "separable" ends in a throw ("Filter kernel not separable.") when
  \<^verbatim>\<open>SeparateFilter\<close> returns no filters, and in the call of \<^verbatim>\<open>SeparableConvolution\<close>
  with the filters it returns otherwise. Neither \<^verbatim>\<open>ConvolveFT\<close> nor
  \<^verbatim>\<open>GeneralConvolution\<close> is called in either case.
\<close>

theorem separable_method_no_fallback:
  assumes "forged img" and "forged filter_c"
      and "Dimensionality filter_c \<le> Dimensionality img"
      and "flt = (if Dimensionality filter_c < Dimensionality img
                  then ExpandDimensionality filter_c (Dimensionality img) else filter_c)"
  shows "Convolution SeparateFilter img filter_c S_SEPARABLE boundaryCondition =
           (if SeparateFilter flt = [] then Inl FILTER_NOT_SEPARABLE
            else Inr (CallSeparableConvolution (SeparateFilter flt) boundaryCondition))"
proof -
  have d: "\<not> Dimensionality flt > Dimensionality img"
    using assms(3,4) by (simp add: Dimensionality_Expand)
  have t: "try_methods img flt S_SEPARABLE = Inr (True, False, False)"
    by (simp add: try_methods_def S_SEPARABLE_def S_DIRECT_def S_FOURIER_def)
  show ?thesis
    using assms(1,2) d t unfolding Convolution_def assms(4) [symmetric] Let_def
    by simp
qed

text \<open>
  A 3 by 3 image and a 2 by 2 kernel: with a \<^verbatim>\<open>SeparateFilter\<close> that finds no
  decomposition the call throws, with one that returns two filters
  \<^verbatim>\<open>SeparableConvolution\<close> is called with them.
\<close>

theorem separable_method_no_fallback_witness:
  "Convolution (\<lambda>k. [])
     \<lparr> forged = True, sizes = [3, 3], dataType = DT_SFLOAT, pixel = (\<lambda>c. 1) \<rparr>
     \<lparr> forged = True, sizes = [2, 2], dataType = DT_SFLOAT, pixel = (\<lambda>c. 1) \<rparr>
     S_SEPARABLE [''periodic'']
   = Inl FILTER_NOT_SEPARABLE
   \<and> Convolution
     (\<lambda>k. [\<lparr> f_filter = [1, 1], f_origin = - 1, f_symmetry = ''general'', f_isComplex = False \<rparr>,
           \<lparr> f_filter = [1, 1], f_origin = - 1, f_symmetry = ''general'', f_isComplex = False \<rparr>])
     \<lparr> forged = True, sizes = [3, 3], dataType = DT_SFLOAT, pixel = (\<lambda>c. 1) \<rparr>
     \<lparr> forged = True, sizes = [2, 2], dataType = DT_SFLOAT, pixel = (\<lambda>c. 1) \<rparr>
     S_SEPARABLE [''periodic'']
   = Inr (CallSeparableConvolution
       [\<lparr> f_filter = [1, 1], f_origin = - 1, f_symmetry = ''general'', f_isComplex = False \<rparr>,
        \<lparr> f_filter = [1, 1], f_origin = - 1, f_symmetry = ''general'', f_isComplex = False \<rparr>]
       [''periodic''])"
proof -
  let ?img = "\<lparr> forged = True, sizes = [3, 3], dataType = DT_SFLOAT, pixel = (\<lambda>c. (1::complex)) \<rparr>"
  let ?k = "\<lparr> forged = True, sizes = [2, 2], dataType = DT_SFLOAT, pixel = (\<lambda>c. (1::complex)) \<rparr>"
  have a: "forged ?img" and b: "forged ?k" and c: "Dimensionality ?k \<le> Dimensionality ?img"
    by (simp_all add: Dimensionality_def)
  have f: "?k = (if Dimensionality ?k < Dimensionality ?img
                 then ExpandDimensionality ?k (Dimensionality ?img) else ?k)"
    by (simp add: Dimensionality_def)
  show ?thesis
    using separable_method_no_fallback [OF a b c f, of "\<lambda>k. []" "[''periodic'']"]
          separable_method_no_fallback [OF a b c f,
            of "\<lambda>k. [\<lparr> f_filter = [1, 1], f_origin = - 1, f_symmetry = ''general'', f_isComplex = False \<rparr>,
                      \<lparr> f_filter = [1, 1], f_origin = - 1, f_symmetry = ''general'', f_isComplex = False \<rparr>]"
               "[''periodic'']"]
    by simp
qed

subsection \<open>Padding and cropping on the Fourier path\<close>

lemma BooleanFromString_Inr:
  "BooleanFromString s S_SPATIAL S_FREQUENCY = Inr b \<Longrightarrow> b \<longleftrightarrow> s = S_SPATIAL"
  by (auto simp: BooleanFromString_def S_SPATIAL_def S_FREQUENCY_def split: if_splits)

lemma padded_sizes_nth:
  "padded_sizes optimalSize filterSize ss k = Inr psz \<Longrightarrow>
   length psz = length ss \<and>
   (\<forall>i < length ss. optimalSize (uint_sub (ss ! i + filterSize (k + i)) 1) = Inr (psz ! i))"
proof (induction ss arbitrary: k psz)
  case Nil
  then show ?case by simp
next
  case (Cons s ss)
  from Cons.prems obtain s' ss' where
    s': "optimalSize (uint_sub (s + filterSize k) 1) = Inr s'" and
    ss': "padded_sizes optimalSize filterSize ss (k + 1) = Inr ss'" and
    psz: "psz = s' # ss'"
    by (auto split: sum.splits)
  note ih = Cons.IH [OF ss']
  have "optimalSize (uint_sub ((s # ss) ! i + filterSize (k + i)) 1) = Inr (psz ! i)"
    if "i < length (s # ss)" for i
  proof (cases i)
    case 0
    then show ?thesis using s' psz by simp
  next
    case (Suc j)
    then show ?thesis using ih that psz by simp
  qed
  then show ?case
    using ih psz by simp
qed

text \<open>
  Claim C3. Whenever \<^verbatim>\<open>ConvolveFT\<close> returns, with \<open>P\<close> for "the three
  representations are spatial and the boundary condition array is not empty":
  \<^item> the input is padded (\<^verbatim>\<open>ExtendImageToSize\<close> is called) exactly when \<open>P\<close>;
  \<^item> under \<open>P\<close> the padding is the first call, with the boundary condition, to sizes
    \<open>psz\<close> that in every dimension are what \<^verbatim>\<open>OptimalFourierTransformSize\<close> returns
    for input size plus filter size minus 1, and the transform is taken at these sizes;
  \<^item> under \<open>P\<close> the last call crops the inverse transform to the sizes of the input,
    which are the sizes of the output;
  \<^item> otherwise there is neither padding nor cropping, and a spatial input is
    transformed as it is, at its own sizes, which are the sizes at which the
    transforms are multiplied: the period of the transform, and so of the wraparound
    of the product, is the extent of the input;
  \<^item> in particular, with the three representations spatial and an empty boundary
    condition array the calls are exactly: transform of the input at its sizes,
    padding of the filter to these sizes when it is smaller in every dimension,
    transform of the filter, the sample-wise product, the inverse transform.
\<close>

theorem fourier_path_padding:
  assumes "ConvolveFT optimalSize beyond img flt inRep filterRep outRep bc = Inr r"
      and "P = (inRep = S_SPATIAL \<and> filterRep = S_SPATIAL \<and> outRep = S_SPATIAL \<and> bc \<noteq> [])"
      and "filterFT = (if Dimensionality flt < Dimensionality img
                       then ExpandDimensionality flt (Dimensionality img) else flt)"
      and "rl = (IsReal (dataType img) \<and> IsReal (dataType filterFT))"
  shows "(list_ex is_ExtendImageToSize (ft_calls r) \<longleftrightarrow> P)
       \<and> (P \<longrightarrow> (\<exists>psz. hd (ft_calls r) = ExtendImageToSize psz bc
                   \<and> ft_transform_sizes r = psz
                   \<and> length psz = length (sizes img)
                   \<and> (\<forall>ii < length (sizes img).
                         optimalSize (uint_sub (sizes img ! ii + Size_unchecked beyond flt ii) 1)
                           = Inr (psz ! ii))))
       \<and> (P \<longrightarrow> last (ft_calls r) = Crop (sizes img) \<and> ft_out_sizes r = Some (sizes img))
       \<and> (\<not> P \<longrightarrow> Crop (sizes img) \<notin> set (ft_calls r) \<and> ft_out_sizes r = None
                 \<and> ft_transform_sizes r = sizes img
                 \<and> (inRep = S_SPATIAL \<longrightarrow> hd (ft_calls r) = FourierTransform_in (sizes img)))
       \<and> (inRep = S_SPATIAL \<and> filterRep = S_SPATIAL \<and> outRep = S_SPATIAL \<and> bc = [] \<longrightarrow>
            ft_calls r =
              [FourierTransform_in (sizes img)]
              @ (if sizes_lt (sizes filterFT) (sizes img) then [Pad_filter (sizes img)] else [])
              @ [FourierTransform_filter]
              @ (if rl then [] else [ReForge_out])
              @ [MultiplySampleWise, FourierTransform_inverse rl])"
proof -
  from assms(1) obtain inSpatial filterSpatial outSpatial where
    i: "BooleanFromString inRep S_SPATIAL S_FREQUENCY = Inr inSpatial" and
    f: "BooleanFromString filterRep S_SPATIAL S_FREQUENCY = Inr filterSpatial" and
    u: "BooleanFromString outRep S_SPATIAL S_FREQUENCY = Inr outSpatial"
    by (auto simp: ConvolveFT_def split: if_splits sum.splits)
  note b = BooleanFromString_Inr [OF i] BooleanFromString_Inr [OF f] BooleanFromString_Inr [OF u]
  have pad: "\<exists>psz. hd (ft_calls r) = ExtendImageToSize psz bc
                \<and> ft_transform_sizes r = psz
                \<and> length psz = length (sizes img)
                \<and> (\<forall>ii < length (sizes img).
                      optimalSize (uint_sub (sizes img ! ii + Size_unchecked beyond flt ii) 1)
                        = Inr (psz ! ii))" if P
  proof -
    from that assms(1) b obtain psz where
      p: "padded_sizes optimalSize (Size_unchecked beyond flt) (sizes img) 0 = Inr psz" and
      h: "hd (ft_calls r) = ExtendImageToSize psz bc" and
      t: "ft_transform_sizes r = psz"
      unfolding assms(2) ConvolveFT_def i f u Let_def
      by (auto split: if_splits sum.splits)
    from padded_sizes_nth [OF p] h t show ?thesis by auto
  qed
  have rest: "(list_ex is_ExtendImageToSize (ft_calls r) \<longleftrightarrow> P)
       \<and> (P \<longrightarrow> last (ft_calls r) = Crop (sizes img) \<and> ft_out_sizes r = Some (sizes img))
       \<and> (\<not> P \<longrightarrow> Crop (sizes img) \<notin> set (ft_calls r) \<and> ft_out_sizes r = None
                 \<and> ft_transform_sizes r = sizes img
                 \<and> (inRep = S_SPATIAL \<longrightarrow> hd (ft_calls r) = FourierTransform_in (sizes img)))"
    using assms(1) b unfolding assms(2) ConvolveFT_def i f u Let_def
    by (auto split: if_splits sum.splits)
  have plain: "ft_calls r =
              [FourierTransform_in (sizes img)]
              @ (if sizes_lt (sizes filterFT) (sizes img) then [Pad_filter (sizes img)] else [])
              @ [FourierTransform_filter]
              @ (if rl then [] else [ReForge_out])
              @ [MultiplySampleWise, FourierTransform_inverse rl]"
    if "inRep = S_SPATIAL \<and> filterRep = S_SPATIAL \<and> outRep = S_SPATIAL \<and> bc = []"
    using assms(1) b that
    unfolding ConvolveFT_def i f u Let_def assms(3) assms(4)
    by (auto split: if_splits sum.splits)
  show ?thesis
    using pad rest plain by blast
qed

text \<open>
  The 14 by 7 image and the 4 by 3 kernel of the doctest (lines 880-896), with a
  stand-in for \<^verbatim>\<open>OptimalFourierTransformSize\<close> that doubles the size. With the
  boundary condition "asym mirror" the input is padded to 34 by 18 (twice 14 + 4 - 1
  and twice 7 + 3 - 1) and the result is cropped to 14 by 7; with an empty boundary
  condition array there is no padding and no cropping. A kernel of one dimension and
  size 4 on the same image is accepted, and dimension 1 is padded from what the
  unchecked read returns (here 3).
\<close>

theorem fourier_path_padding_witness:
  "ConvolveFT (\<lambda>n. Inr (2 * n)) (\<lambda>d. 3)
     \<lparr> forged = True, sizes = [14, 7], dataType = DT_SFLOAT, pixel = (\<lambda>c. 1) \<rparr>
     \<lparr> forged = True, sizes = [4, 3], dataType = DT_SFLOAT, pixel = (\<lambda>c. 1) \<rparr>
     S_SPATIAL S_SPATIAL S_SPATIAL [''asym mirror'']
   = Inr \<lparr> ft_calls = [ExtendImageToSize [34, 18] [''asym mirror''], FourierTransform_in [34, 18],
                        Pad_filter [34, 18], FourierTransform_filter, MultiplySampleWise,
                        FourierTransform_inverse True, Crop [14, 7]],
           ft_transform_sizes = [34, 18],
           ft_out_sizes = Some [14, 7] \<rparr>
   \<and> ConvolveFT (\<lambda>n. Inr (2 * n)) (\<lambda>d. 3)
     \<lparr> forged = True, sizes = [14, 7], dataType = DT_SFLOAT, pixel = (\<lambda>c. 1) \<rparr>
     \<lparr> forged = True, sizes = [4, 3], dataType = DT_SFLOAT, pixel = (\<lambda>c. 1) \<rparr>
     S_SPATIAL S_SPATIAL S_SPATIAL []
   = Inr \<lparr> ft_calls = [FourierTransform_in [14, 7], Pad_filter [14, 7], FourierTransform_filter,
                        MultiplySampleWise, FourierTransform_inverse True],
           ft_transform_sizes = [14, 7],
           ft_out_sizes = None \<rparr>
   \<and> ConvolveFT (\<lambda>n. Inr (2 * n)) (\<lambda>d. 3)
     \<lparr> forged = True, sizes = [14, 7], dataType = DT_SFLOAT, pixel = (\<lambda>c. 1) \<rparr>
     \<lparr> forged = True, sizes = [4], dataType = DT_SFLOAT, pixel = (\<lambda>c. 1) \<rparr>
     S_SPATIAL S_SPATIAL S_SPATIAL [''asym mirror'']
   = Inr \<lparr> ft_calls = [ExtendImageToSize [34, 18] [''asym mirror''], FourierTransform_in [34, 18],
                        Pad_filter [34, 18], FourierTransform_filter, MultiplySampleWise,
                        FourierTransform_inverse True, Crop [14, 7]],
           ft_transform_sizes = [34, 18],
           ft_out_sizes = Some [14, 7] \<rparr>"
proof -
  let ?img = "\<lparr> forged = True, sizes = [14, 7], dataType = DT_SFLOAT, pixel = (\<lambda>c. (1::complex)) \<rparr>"
  let ?k = "\<lparr> forged = True, sizes = [4, 3], dataType = DT_SFLOAT, pixel = (\<lambda>c. (1::complex)) \<rparr>"
  let ?k1 = "\<lparr> forged = True, sizes = [4], dataType = DT_SFLOAT, pixel = (\<lambda>c. (1::complex)) \<rparr>"
  let ?r1 = "\<lparr> ft_calls = [ExtendImageToSize [34, 18] [''asym mirror''], FourierTransform_in [34, 18],
                        Pad_filter [34, 18], FourierTransform_filter, MultiplySampleWise,
                        FourierTransform_inverse True, Crop [14, 7]],
               ft_transform_sizes = [34, 18],
               ft_out_sizes = Some [14, 7] \<rparr>"
  let ?r2 = "\<lparr> ft_calls = [FourierTransform_in [14, 7], Pad_filter [14, 7], FourierTransform_filter,
                        MultiplySampleWise, FourierTransform_inverse True],
               ft_transform_sizes = [14, 7],
               ft_out_sizes = None \<rparr>"
  have a: "ConvolveFT (\<lambda>n. Inr (2 * n)) (\<lambda>d. 3) ?img ?k S_SPATIAL S_SPATIAL S_SPATIAL [''asym mirror''] = Inr ?r1"
    by (simp add: ConvolveFT_def BooleanFromString_def Dimensionality_def sizes_le_def sizes_lt_def
          Size_unchecked_def uint_sub_def DT_SFLOAT_def Let_def)
  have b: "ConvolveFT (\<lambda>n. Inr (2 * n)) (\<lambda>d. 3) ?img ?k S_SPATIAL S_SPATIAL S_SPATIAL [] = Inr ?r2"
    by (simp add: ConvolveFT_def BooleanFromString_def Dimensionality_def sizes_le_def sizes_lt_def
          DT_SFLOAT_def Let_def)
  have c: "ConvolveFT (\<lambda>n. Inr (2 * n)) (\<lambda>d. 3) ?img ?k1 S_SPATIAL S_SPATIAL S_SPATIAL [''asym mirror''] = Inr ?r1"
    by (simp add: ConvolveFT_def BooleanFromString_def Dimensionality_def ExpandDimensionality_def
          sizes_le_def sizes_lt_def Size_unchecked_def uint_sub_def DT_SFLOAT_def Let_def)
  from fourier_path_padding [OF a refl refl refl] fourier_path_padding [OF b refl refl refl]
       fourier_path_padding [OF c refl refl refl]
  have "last (ft_calls ?r1) = Crop (sizes ?img)" and "ft_out_sizes ?r2 = None"
    by simp_all
  with a b c show ?thesis by simp
qed

text \<open>
  Lines 692-697: \<^verbatim>\<open>Convolution\<close> never passes an empty boundary condition array to
  \<^verbatim>\<open>ConvolveFT\<close>, so on that route the input is always padded.
\<close>

lemma Convolution_forces_padding:
  assumes "Convolution SeparateFilter img filter_c method bc = Inr (CallConvolveFT k bc')"
  shows "bc' \<noteq> []"
  using assms
  by (auto simp: Convolution_def Let_def split: if_splits sum.splits prod.splits)

subsection \<open>Binary kernels\<close>

text \<open>
  Claim C6. For forged images and a kernel image of binary type, the output of
  \<^verbatim>\<open>GeneralConvolution\<close> is the output of \<^verbatim>\<open>Uniform\<close> on the same input, the kernel
  made of the same kernel image and mirrored, and the same boundary condition; the
  weighted sum over the pixel table (\<open>Full\<close>) is not run.
\<close>

theorem binary_kernel_uses_uniform:
  assumes "forged img" and "forged c_filter" and "IsBinary (dataType c_filter)"
  shows "GeneralConvolution Uniform Full img c_filter boundaryCondition
           = Uniform img (Mirror (Kernel c_filter)) boundaryCondition
       \<and> k_image (Mirror (Kernel c_filter)) = c_filter
       \<and> k_mirror (Mirror (Kernel c_filter))"
  using assms by (simp add: GeneralConvolution_def Mirror_def Kernel_def)

text \<open>
  A binary 2 by 2 kernel on a 3 by 3 image, with a stand-in for \<^verbatim>\<open>Uniform\<close> that
  returns its input and a stand-in for the weighted sum that throws.
\<close>

theorem binary_kernel_uses_uniform_witness:
  "GeneralConvolution (\<lambda>i k b. Inr i) (\<lambda>i k b. Inl DIMENSIONALITY_NOT_SUPPORTED)
     \<lparr> forged = True, sizes = [3, 3], dataType = DT_SFLOAT, pixel = (\<lambda>c. 1) \<rparr>
     \<lparr> forged = True, sizes = [2, 2], dataType = DT_BIN, pixel = (\<lambda>c. 1) \<rparr>
     [''periodic'']
   = Inr \<lparr> forged = True, sizes = [3, 3], dataType = DT_SFLOAT, pixel = (\<lambda>c. 1) \<rparr>"
proof -
  let ?img = "\<lparr> forged = True, sizes = [3, 3], dataType = DT_SFLOAT, pixel = (\<lambda>c. (1::complex)) \<rparr>"
  let ?k = "\<lparr> forged = True, sizes = [2, 2], dataType = DT_BIN, pixel = (\<lambda>c. (1::complex)) \<rparr>"
  have a: "forged ?img" and b: "forged ?k" and c: "IsBinary (dataType ?k)"
    by (simp_all add: DT_BIN_def)
  show ?thesis
    using binary_kernel_uses_uniform [OF a b c, of "\<lambda>i k b. Inr i" "\<lambda>i k b. Inl DIMENSIONALITY_NOT_SUPPORTED" "[''periodic'']"]
    by simp
qed



subsection \<open>Scanning with singleton-expanded dimensions\<close>

lemma length_expanded_strides [simp]:
  "length (expanded_strides as ss ts) = length ts"
  by (induction as ss ts rule: expanded_strides.induct) simp_all

lemma length_normal_strides [simp]: "length (normal_strides sz k) = length sz"
  by (induction sz arbitrary: k) simp_all

lemma offset_normal_strides:
  "length c = length sz \<Longrightarrow> offset c (normal_strides sz k) = k * int (lin sz c)"
proof (induction c sz arbitrary: k rule: list_induct2)
  case Nil
  show ?case by simp
next
  case (Cons x xs s ss)
  show ?case
    by (simp add: Cons.IH algebra_simps)
qed

lemma coords_of_lin:
  "list_all2 (<) c sz \<Longrightarrow> coords_of sz (lin sz c) = c"
proof (induction c sz rule: list_all2_induct)
  case Nil
  show ?case by simp
next
  case (Cons x s xs ss)
  then show ?case by simp
qed


lemma offset_masked_strides:
  "length single = length c \<Longrightarrow> length c = length ns \<Longrightarrow>
   offset c (map2 (\<lambda>sg k. if sg then 0 else k) single ns)
     = offset (map2 (\<lambda>sg x. if sg then 0 else x) single c) ns"
proof (induction single c ns rule: list_induct3)
  case Nil
  show ?case by simp
next
  case (Cons sg single x c k ns)
  then show ?case by simp
qed

lemma offset_masked_left:
  "length sl = length c \<Longrightarrow> length c = length sr \<Longrightarrow>
   offset (map2 (\<lambda>sg x. if sg then 0 else x) (map2 (\<lambda>a b. a = 0 \<and> b = 0) sl sr) c) sl = offset c sl"
proof (induction sl c sr rule: list_induct3)
  case Nil
  show ?case by simp
next
  case (Cons a sl x c b sr)
  then show ?case by simp
qed

lemma offset_masked_right:
  "length sl = length c \<Longrightarrow> length c = length sr \<Longrightarrow>
   offset (map2 (\<lambda>sg x. if sg then 0 else x) (map2 (\<lambda>a b. a = 0 \<and> b = 0) sl sr) c) sr = offset c sr"
proof (induction sl c sr rule: list_induct3)
  case Nil
  show ?case by simp
next
  case (Cons a sl x c b sr)
  then show ?case by simp
qed

lemma masked_in_alloc:
  "list_all2 (<) c (sz :: nat list) \<Longrightarrow> length single = length sz \<Longrightarrow>
   list_all2 (<) (map2 (\<lambda>sg x. if sg then 0 else x) single c)
                 (map2 (\<lambda>sg s. if sg then 1 else s) single sz)"
  by (auto simp: list_all2_conv_all_nth)

lemma ScanDyadic_correct:
  assumes "ScanDyadic f lhs rhs = Inr out"
      and "SingletonExpandedSize (a_sizes lhs) (a_sizes rhs) = Inr sz"
      and "l = ExpandSingletonDimensions lhs sz" and "r = ExpandSingletonDimensions rhs sz"
      and "in_sizes c sz"
  shows "a_sizes out = sz
       \<and> length (a_strides out) = length sz
       \<and> (\<forall>d < length sz. a_strides l ! d = 0 \<and> a_strides r ! d = 0 \<longrightarrow> a_strides out ! d = 0)
       \<and> At out c = f (At l c) (At r c)"
proof -
  let ?sl = "a_strides l" and ?sr = "a_strides r"
  let ?single = "map2 (\<lambda>a b. a = 0 \<and> b = 0) ?sl ?sr"
  let ?alloc = "map2 (\<lambda>sg s. if sg then 1 else s) ?single sz"
  let ?c' = "map2 (\<lambda>sg x. if sg then 0 else x) ?single c"
  have c: "list_all2 (<) c sz"
    using assms(5) by (simp add: in_sizes_def)
  then have lc: "length c = length sz"
    by (rule list_all2_lengthD)
  have ll: "length ?sl = length sz" "length ?sr = length sz"
    by (simp_all add: assms(3,4) ExpandSingletonDimensions_def)
  have ls: "length ?single = length sz" "length ?alloc = length sz"
    using ll by simp_all
  have out: "out = \<lparr> a_sizes = sz,
                     a_strides = map2 (\<lambda>sg k. if sg then 0 else k) ?single (normal_strides ?alloc 1),
                     a_data = (\<lambda>n. let c = coords_of ?alloc (nat n) in f (At l c) (At r c)) \<rparr>"
    using assms(1) by (simp add: ScanDyadic_def assms(2) assms(3,4) [symmetric] Let_def)
  have "offset c (a_strides out) = offset ?c' (normal_strides ?alloc 1)"
    unfolding out using ls lc by (simp add: offset_masked_strides)
  also have "\<dots> = int (lin ?alloc ?c')"
    using ls lc ll by (simp add: offset_normal_strides)
  finally have off: "offset c (a_strides out) = int (lin ?alloc ?c')" .
  have cl: "coords_of ?alloc (lin ?alloc ?c') = ?c'"
    using masked_in_alloc [OF c ls(1)] by (rule coords_of_lin)
  have data: "a_data out n = f (At l (coords_of ?alloc (nat n))) (At r (coords_of ?alloc (nat n)))" for n
    by (subst out) (simp add: Let_def)
  have "At out c = a_data out (int (lin ?alloc ?c'))"
    by (simp only: At_def off)
  also have "\<dots> = f (At l ?c') (At r ?c')"
    by (simp only: data nat_int cl)
  finally have "At out c = f (At l ?c') (At r ?c')" .
  moreover have "At l ?c' = At l c" "At r ?c' = At r c"
    using ll lc by (simp_all add: At_def offset_masked_left offset_masked_right)
  ultimately have val: "At out c = f (At l c) (At r c)"
    by simp
  have str: "a_strides out ! d = 0" if "d < length sz" "?sl ! d = 0" "?sr ! d = 0" for d
    using that ll ls by (simp add: out)
  show ?thesis
    using val str ls by (simp add: out)
qed


lemma doctest_expand:
  "ExpandSingletonDimension zero_image_256 1 256
     = Inr \<lparr> a_sizes = [256, 256], a_strides = [1, 0], a_data = (\<lambda>n. 0) \<rparr>"
  by (simp add: ExpandSingletonDimension_def zero_image_256_def)

lemma doctest_add:
  assumes "i < 256" and "j < 256"
  shows "map_sum id (\<lambda>out. (a_sizes out, a_strides out, At out [i, j]))
           (Add \<lparr> a_sizes = [256, 256], a_strides = [1, 0], a_data = (\<lambda>n. 0) \<rparr> scalar_one)
         = Inr ([256, 256], [1, 0], 1)"
proof -
  let ?img = "\<lparr> a_sizes = [256, 256], a_strides = [1, 0], a_data = (\<lambda>n. (0::complex)) \<rparr>"
  have ses: "SingletonExpandedSize (a_sizes ?img) (a_sizes scalar_one) = Inr [256, 256]"
    by (simp add: scalar_one_def)
  obtain out where out: "ScanDyadic (\<lambda>a b. a + b) ?img scalar_one = Inr out"
    by (simp add: ScanDyadic_def scalar_one_def Let_def)
  have c: "in_sizes [i, j] [256, 256]"
    using assms by (simp add: in_sizes_def)
  note th = ScanDyadic_correct [OF out ses refl refl c]
  have st: "a_strides out = [1, 0]"
    using out by (auto simp: ScanDyadic_def ExpandSingletonDimensions_def scalar_one_def Let_def)
  have "At (ExpandSingletonDimensions ?img [256, 256]) [i, j] = 0"
    and "At (ExpandSingletonDimensions scalar_one [256, 256]) [i, j] = 1"
    by (simp_all add: At_def ExpandSingletonDimensions_def scalar_one_def)
  then show ?thesis
    using th st by (simp add: Add_def out)
qed

text \<open>
  Claim C8, on the scan modelled from the spec. When the dyadic scan returns, the output
  has the common (singleton-expanded) sizes of the operands; its stride is 0 in every
  dimension in which both expanded operands have stride 0; and at every coordinate inside
  the sizes the output sample is the callback applied to the samples of the two expanded
  operands at that coordinate. In particular (the doctest): the 256 by 1 image of zeros,
  expanded to 256 by 256, plus the scalar 1 has sizes 256 by 256, strides 1 and 0, and
  the value 1 at every coordinate \<open>i, j\<close> below 256.
\<close>

theorem scan_singleton_expansion:
  assumes "ScanDyadic f lhs rhs = Inr out"
      and "SingletonExpandedSize (a_sizes lhs) (a_sizes rhs) = Inr sz"
      and "l = ExpandSingletonDimensions lhs sz" and "r = ExpandSingletonDimensions rhs sz"
      and "in_sizes c sz"
      and "i < 256" and "j < 256"
  shows "a_sizes out = sz
       \<and> length (a_strides out) = length sz
       \<and> (\<forall>d < length sz. a_strides l ! d = 0 \<and> a_strides r ! d = 0 \<longrightarrow> a_strides out ! d = 0)
       \<and> At out c = f (At l c) (At r c)
       \<and> (case ExpandSingletonDimension zero_image_256 1 256 of
            Inl e \<Rightarrow> Inl e
          | Inr img \<Rightarrow> map_sum id (\<lambda>out. (a_sizes out, a_strides out, At out [i, j]))
                         (Add img scalar_one))
           = Inr ([256, 256], [1, 0], 1)"
  unfolding doctest_expand
  using ScanDyadic_correct [OF assms(1-5)] doctest_add [OF assms(6,7)]
  by simp

text \<open>The checks of the doctest, at the coordinates 0, 0 and 50, 200.\<close>

theorem scan_singleton_expansion_witness:
  "(case ExpandSingletonDimension zero_image_256 1 256 of
      Inl e \<Rightarrow> Inl e
    | Inr img \<Rightarrow> map_sum id (\<lambda>out. (a_sizes out, a_strides out, At out [0, 0]))
                   (Add img scalar_one))
     = Inr ([256, 256], [1, 0], 1)
   \<and> (case ExpandSingletonDimension zero_image_256 1 256 of
      Inl e \<Rightarrow> Inl e
    | Inr img \<Rightarrow> map_sum id (\<lambda>out. (a_sizes out, a_strides out, At out [50, 200]))
                   (Add img scalar_one))
     = Inr ([256, 256], [1, 0], 1)"
proof -
  let ?img = "\<lparr> a_sizes = [256, 256], a_strides = [1, 0], a_data = (\<lambda>n. (0::complex)) \<rparr>"
  have ses: "SingletonExpandedSize (a_sizes ?img) (a_sizes scalar_one) = Inr [256, 256]"
    by (simp add: scalar_one_def)
  obtain out where out: "ScanDyadic (\<lambda>a b. a + b) ?img scalar_one = Inr out"
    by (simp add: ScanDyadic_def scalar_one_def Let_def)
  have c: "in_sizes [50, 200] [256, 256]"
    by (simp add: in_sizes_def)
  have a: "(0::nat) < 256" and b: "(50::nat) < 256" and d: "(200::nat) < 256"
    by simp_all
  show ?thesis
    using scan_singleton_expansion [OF out ses refl refl c a a]
          scan_singleton_expansion [OF out ses refl refl c b d]
    by (simp only: simp_thms)
qed

end
